theory Spec2Isabelle
  imports Main "HOL-Library.Log_Nat" "HOL-Library.Char_ord" "HOL-Library.List_Lexorder"
begin

section \<open>The incremental caching engine of landmarkerio (cache.py)\<close>

text \<open>
  The source is Python 2 (\<^verbatim>\<open>dict.iterkeys\<close>, binary-mode \<^verbatim>\<open>json.dump\<close>). Paths and
  asset ids are strings, exceptions are values of \<open>error\<close>, and every function that
  prints or touches the file system takes the \<open>world\<close> and returns it updated, also
  when it raises.
\<close>

subsection \<open>Exceptions\<close>

datatype error =
    RuntimeError string
  | ValueError string
  | ZeroDivisionError
  | OSError string
  | IOError string
  | ImportFailure string

subsection \<open>Asset ids: \<^verbatim>\<open>Path(fp).stem\<close>\<close>

text \<open>
  pathlib on a POSIX path: the path is split at \<^verbatim>\<open>/\<close>, empty components and \<^verbatim>\<open>.\<close>
  are dropped, the name is the last remaining component (empty when there is none), and
  the stem is the name up to its last dot when that dot is neither the first nor the
  last character of the name.
\<close>

fun split_on :: "char \<Rightarrow> string \<Rightarrow> string list" where
  "split_on c [] = [[]]"
| "split_on c (x # xs) =
     (if x = c then [] # split_on c xs
      else (case split_on c xs of
              [] \<Rightarrow> [[x]]
            | p # ps \<Rightarrow> (x # p) # ps))"

definition path_parts :: "string \<Rightarrow> string list" where
  "path_parts fp = filter (\<lambda>s. s \<noteq> [] \<and> s \<noteq> ''.'') (split_on CHR ''/'' fp)"

definition path_name :: "string \<Rightarrow> string" where
  "path_name fp = (case path_parts fp of [] \<Rightarrow> [] | ps \<Rightarrow> last ps)"

fun rfind :: "char \<Rightarrow> string \<Rightarrow> nat option" where
  "rfind c [] = None"
| "rfind c (x # xs) =
     (case rfind c xs of
        Some i \<Rightarrow> Some (Suc i)
      | None \<Rightarrow> (if x = c then Some 0 else None))"

definition path_stem :: "string \<Rightarrow> string" where
  "path_stem fp =
     (let name = path_name fp in
      case rfind CHR ''.'' name of
        None \<Rightarrow> name
      | Some i \<Rightarrow> (if 0 < i \<and> i < length name - 1 then take i name else name))"

definition asset_id_for_path :: "string \<Rightarrow> string" where
  "asset_id_for_path fp = path_stem fp"

subsection \<open>\<^verbatim>\<open>build_asset_mapping\<close>\<close>

definition not_unique_message :: "string \<Rightarrow> string \<Rightarrow> string \<Rightarrow> string" where
  "not_unique_message asset_id first_path path =
     ''asset_id '' @ asset_id @ '' is not unique - links to '' @ first_path @ '' and '' @ path"

fun build_asset_mapping_from ::
  "(string \<rightharpoonup> string) \<Rightarrow> string list \<Rightarrow> error + (string \<rightharpoonup> string)" where
  "build_asset_mapping_from asset_mapping [] = Inr asset_mapping"
| "build_asset_mapping_from asset_mapping (path # rest) =
     (let asset_id = asset_id_for_path path in
      case asset_mapping asset_id of
        Some first_path \<Rightarrow> Inl (RuntimeError (not_unique_message asset_id first_path path))
      | None \<Rightarrow> build_asset_mapping_from (asset_mapping(asset_id \<mapsto> path)) rest)"

definition build_asset_mapping :: "string list \<Rightarrow> error + (string \<rightharpoonup> string)" where
  "build_asset_mapping asset_paths_iter = build_asset_mapping_from Map.empty asset_paths_iter"


subsection \<open>Decoded assets (the external codec's results)\<close>

text \<open>
  A menpo image carries its pixel size and the extension and path of the file it was
  imported from (\<^verbatim>\<open>img.ioinfo\<close>); \<open>pixels\<close> stands for the pixel data. A mesh is a plain
  mesh or a \<^verbatim>\<open>TexturedTriMesh\<close> with its texture image; the string is what
  \<^verbatim>\<open>json.dumps(mesh.tojson())\<close> yields.
\<close>

record image =
  width :: nat
  height :: nat
  ioinfo_extension :: string
  ioinfo_filepath :: string
  pixels :: nat

datatype mesh = TriMesh string | TexturedTriMesh string image

fun tojson :: "mesh \<Rightarrow> string" where
  "tojson (TriMesh j) = j"
| "tojson (TexturedTriMesh j t) = j"

datatype pil_image = PILImage image | Resized pil_image "nat \<times> nat"

definition as_PILImage :: "image \<Rightarrow> pil_image" where
  "as_PILImage img = PILImage img"

fun pil_size :: "pil_image \<Rightarrow> nat \<times> nat" where
  "pil_size (PILImage img) = (width img, height img)"
| "pil_size (Resized ip sz) = sz"

definition resize :: "pil_image \<Rightarrow> nat \<times> nat \<Rightarrow> pil_image" where
  "resize ip sz = Resized ip sz"

subsection \<open>The file system and standard output\<close>

text \<open>
  What a written file holds: the JSON record of a width and a height, a verbatim copy of
  a source file, a JPEG encoding of a PIL image at a quality (\<open>None\<close>: the encoder's
  default), or gzip-compressed text at a compression level.
\<close>

datatype content =
    Json_width_height nat nat
  | Copy_of string
  | Jpeg pil_image "nat option"
  | Gzip nat string

datatype node = File content | Dir "string \<rightharpoonup> node"

text \<open>
  A location is an absolute directory path followed by entry names below it:
  \<^verbatim>\<open>p.join(cache_dir, asset_id)\<close> is the entry \<open>asset_id\<close> of the directory \<open>cache_dir\<close>.
  (An asset id is the stem of a file name, used as an entry name.)
\<close>

type_synonym location = "string list"

record world =
  stdout :: "string list"
  fs :: "string \<rightharpoonup> node"

fun lookup_node :: "node \<Rightarrow> location \<Rightarrow> node option" where
  "lookup_node n [] = Some n"
| "lookup_node (File c) (x # xs) = None"
| "lookup_node (Dir m) (x # xs) =
     (case m x of None \<Rightarrow> None | Some n \<Rightarrow> lookup_node n xs)"

fun store_node :: "node \<Rightarrow> location \<Rightarrow> node \<Rightarrow> node" where
  "store_node n [] new = new"
| "store_node (File c) (x # xs) new = File c"
| "store_node (Dir m) (x # xs) new =
     (if xs = [] then Dir (m(x \<mapsto> new))
      else (case m x of
              None \<Rightarrow> Dir m
            | Some n \<Rightarrow> Dir (m(x \<mapsto> store_node n xs new))))"

definition lookup :: "world \<Rightarrow> location \<Rightarrow> node option" where
  "lookup w loc = lookup_node (Dir (fs w)) loc"

definition store :: "location \<Rightarrow> node \<Rightarrow> world \<Rightarrow> world" where
  "store loc new w =
     (case store_node (Dir (fs w)) loc new of
        Dir m \<Rightarrow> w\<lparr>fs := m\<rparr>
      | File c \<Rightarrow> w)"

definition isdir :: "world \<Rightarrow> location \<Rightarrow> bool" where
  "isdir w loc = (case lookup w loc of Some (Dir m) \<Rightarrow> True | _ \<Rightarrow> False)"

definition p_join :: "location \<Rightarrow> string \<Rightarrow> location" where
  "p_join loc name = loc @ [name]"

text \<open>An action takes the world and returns a value or the exception raised, with the
  world as it is at that moment.\<close>

type_synonym 'a io = "world \<Rightarrow> (error + 'a) \<times> world"

definition io_return :: "'a \<Rightarrow> 'a io" where
  "io_return x w = (Inr x, w)"

definition io_raise :: "error \<Rightarrow> 'a io" where
  "io_raise e w = (Inl e, w)"

definition io_bind :: "'a io \<Rightarrow> ('a \<Rightarrow> 'b io) \<Rightarrow> 'b io" where
  "io_bind act f w =
     (case act w of
        (Inl e, w') \<Rightarrow> (Inl e, w')
      | (Inr x, w') \<Rightarrow> f x w')"

definition io_of :: "error + 'a \<Rightarrow> 'a io" where
  "io_of r w = (r, w)"

definition print_line :: "string \<Rightarrow> unit io" where
  "print_line s w = (Inr (), w\<lparr>stdout := stdout w @ [s]\<rparr>)"

definition os_mkdir :: "location \<Rightarrow> unit io" where
  "os_mkdir loc w =
     (if lookup w loc \<noteq> None then (Inl (OSError ''File exists''), w)
      else if \<not> isdir w (butlast loc) then (Inl (OSError ''No such file or directory''), w)
      else (Inr (), store loc (Dir Map.empty) w))"

definition os_listdir :: "location \<Rightarrow> string set io" where
  "os_listdir loc w =
     (case lookup w loc of
        Some (Dir m) \<Rightarrow> (Inr (dom m), w)
      | _ \<Rightarrow> (Inl (OSError ''Not a directory''), w))"

text \<open>Opening a file for writing and writing it out: the file is created or replaced.\<close>

definition write_file :: "location \<Rightarrow> content \<Rightarrow> unit io" where
  "write_file loc c w =
     (if isdir w loc then (Inl (IOError ''Is a directory''), w)
      else if \<not> isdir w (butlast loc) then (Inl (IOError ''No such file or directory''), w)
      else (Inr (), store loc (File c) w))"

subsection \<open>Formatting\<close>

definition digit_char :: "nat \<Rightarrow> char" where
  "digit_char d = ''0123456789'' ! d"

fun str_of_nat :: "nat \<Rightarrow> string" where
  "str_of_nat n =
     (if n < 10 then [digit_char n]
      else str_of_nat (n div 10) @ [digit_char (n mod 10)])"

declare str_of_nat.simps [simp del]

subsection \<open>Python floats\<close>

text \<open>
  A Python float is an IEEE 754 double. Its finite values are modelled as rationals, and
  every operation rounds the exact result to 53 significant bits, to nearest with ties
  to even. The exponent is unbounded here, so the model is exact for magnitudes in the
  normal range of a double, far beyond any ratio of image sizes.
\<close>

definition pow2 :: "int \<Rightarrow> rat" where
  "pow2 e = (if 0 \<le> e then 2 ^ nat e else 1 / 2 ^ nat (- e))"

definition ilog2 :: "rat \<Rightarrow> int" where
  "ilog2 x =
     (let (p, q) = quotient_of x;
          k = bitlen p - bitlen q
      in if pow2 k \<le> x then k else k - 1)"

definition round_half_even :: "rat \<Rightarrow> int" where
  "round_half_even m =
     (let f = \<lfloor>m\<rfloor>; r = m - of_int f
      in if r < 1 / 2 then f
         else if 1 / 2 < r then f + 1
         else if even f then f else f + 1)"

definition fl :: "rat \<Rightarrow> rat" where
  "fl x =
     (if x = 0 then 0
      else (let a = \<bar>x\<bar>;
                e = ilog2 a - 52;
                m = round_half_even (a / pow2 e)
            in sgn x * of_int m * pow2 e))"

definition float_of_int :: "int \<Rightarrow> rat" where
  "float_of_int n = fl (of_int n)"

definition float_mul :: "rat \<Rightarrow> rat \<Rightarrow> rat" where
  "float_mul a b = fl (a * b)"

definition float_div :: "rat \<Rightarrow> rat \<Rightarrow> error + rat" where
  "float_div a b = (if b = 0 then Inl ZeroDivisionError else Inr (fl (a / b)))"

text \<open>\<^verbatim>\<open>int(x)\<close> of a float truncates toward zero.\<close>

definition py_int :: "rat \<Rightarrow> int" where
  "py_int x = (if 0 \<le> x then \<lfloor>x\<rfloor> else \<lceil>x\<rceil>)"

subsection \<open>Names of the files of a cache entry\<close>

text \<open>Modelled from the spec: the constants \<^verbatim>\<open>IMAGE_INFO_FILENAME\<close>, \<^verbatim>\<open>TEXTURE_FILENAME\<close>,
  \<^verbatim>\<open>THUMBNAIL_FILENAME\<close> and \<^verbatim>\<open>MESH_FILENAME\<close> are imported from the package's
  \<^verbatim>\<open>__init__\<close>, which is not among the sources; the spec's cache directory layout
  gives the four names.\<close>

definition IMAGE_INFO_FILENAME :: string where
  "IMAGE_INFO_FILENAME = ''image-info''"

definition TEXTURE_FILENAME :: string where
  "TEXTURE_FILENAME = ''texture''"

definition THUMBNAIL_FILENAME :: string where
  "THUMBNAIL_FILENAME = ''thumbnail''"

definition MESH_FILENAME :: string where
  "MESH_FILENAME = ''mesh''"

subsection \<open>External collaborators\<close>

text \<open>
  What the code consumes from menpo, the operating system and the Python runtime:
  the two importers (which may raise), the two path enumerators (from a glob string to
  the paths found), \<^verbatim>\<open>abspath\<close>, \<^verbatim>\<open>expanduser\<close> and \<^verbatim>\<open>getcwd\<close>, the constant
  \<^verbatim>\<open>CACHE_DIRNAME\<close> (imported from the package's \<^verbatim>\<open>__init__\<close>; the spec does not give its
  value), and the order in which the runtime iterates over a set of strings.
\<close>

record env =
  mio_import_image :: "string \<Rightarrow> error + image"
  mio_import_mesh :: "string \<Rightarrow> error + mesh"
  mio_image_paths :: "string \<Rightarrow> string list"
  mio_mesh_paths :: "string \<Rightarrow> string list"
  abspath :: "string \<Rightarrow> string"
  expanduser :: "string \<Rightarrow> string"
  getcwd :: string
  CACHE_DIRNAME :: string
  set_iter :: "string set \<Rightarrow> string list"

text \<open>\<^verbatim>\<open>os.path.join\<close> of two strings (POSIX), where the result stays a string: a glob
  pattern, or the argument of \<^verbatim>\<open>abspath\<close>.\<close>

definition os_path_join :: "string \<Rightarrow> string \<Rightarrow> string" where
  "os_path_join a b =
     (if b \<noteq> [] \<and> hd b = CHR ''/'' then b
      else if a = [] \<or> last a = CHR ''/'' then a @ b
      else a @ ''/'' @ b)"

subsection \<open>Asset path resolution\<close>

definition asset_paths :: "(string \<Rightarrow> string list) \<Rightarrow> string \<Rightarrow> string \<Rightarrow> string list" where
  "asset_paths path_f asset_dir glob_ptn = path_f (os_path_join asset_dir glob_ptn)"

definition mesh_paths :: "env \<Rightarrow> string \<Rightarrow> string \<Rightarrow> string list" where
  "mesh_paths env = asset_paths (mio_mesh_paths env)"

definition image_paths :: "env \<Rightarrow> string \<Rightarrow> string \<Rightarrow> string list" where
  "image_paths env = asset_paths (mio_image_paths env)"

definition glob_pattern :: "string \<Rightarrow> bool \<Rightarrow> string" where
  "glob_pattern ext_str recursive =
     (let file_glob = ''*'' @ ext_str in
      if recursive then os_path_join ''**'' file_glob else file_glob)"

definition ensure_asset_dir :: "env \<Rightarrow> string \<Rightarrow> string io" where
  "ensure_asset_dir env asset_dir0 =
     (let asset_dir = abspath env (expanduser env asset_dir0) in
      (\<lambda>w. if \<not> isdir w [asset_dir]
            then io_raise (ValueError (asset_dir @ '' is not a directory.'')) w
            else io_bind (print_line (''assets:    '' @ asset_dir))
                   (\<lambda>_. io_return asset_dir) w))"

subsection \<open>Caching\<close>

definition cache_asset ::
  "string \<Rightarrow> (string \<Rightarrow> string \<Rightarrow> string \<Rightarrow> unit io) \<Rightarrow> string \<Rightarrow> string \<Rightarrow> unit io" where
  "cache_asset cache_dir cache_f path asset_id =
     io_bind (print_line (''Caching asset '' @ asset_id @ '' from '' @ path)) (\<lambda>_.
     (let asset_cache_dir = p_join [cache_dir] asset_id in
      io_bind (\<lambda>w. if \<not> isdir w asset_cache_dir
                    then io_bind (print_line (''Cache for '' @ asset_id @ '' does not exist - creating...''))
                           (\<lambda>_. os_mkdir asset_cache_dir) w
                    else io_return () w) (\<lambda>_.
      cache_f cache_dir path asset_id)))"

definition save_jpg_thumbnail_file :: "image \<Rightarrow> location \<Rightarrow> nat \<Rightarrow> unit io" where
  "save_jpg_thumbnail_file img path width_arg =
     (let ip = as_PILImage img;
          (w, h) = pil_size ip
      in io_bind (io_of (float_div (float_mul (float_of_int (int h)) 1) (float_of_int (int w)))) (\<lambda>h2w.
         (let ips = resize ip (width_arg, nat (py_int (float_mul h2w (float_of_int (int width_arg)))))
          in write_file path (Jpeg ips (Some 20)))))"

definition cache_image_for_id :: "string \<Rightarrow> string \<Rightarrow> image \<Rightarrow> unit io" where
  "cache_image_for_id cache_dir asset_id img =
     (let asset_cache_dir = p_join [cache_dir] asset_id;
          image_info_path = p_join asset_cache_dir IMAGE_INFO_FILENAME;
          texture_path = p_join asset_cache_dir TEXTURE_FILENAME;
          thumbnail_path = p_join asset_cache_dir THUMBNAIL_FILENAME
      in io_bind (write_file image_info_path (Json_width_height (width img) (height img))) (\<lambda>_.
         io_bind (if ioinfo_extension img = ''.jpg''
                  then write_file texture_path (Copy_of (ioinfo_filepath img))
                  else write_file texture_path (Jpeg (as_PILImage img) None)) (\<lambda>_.
         save_jpg_thumbnail_file img thumbnail_path 640)))"

definition cache_image :: "env \<Rightarrow> string \<Rightarrow> string \<Rightarrow> string \<Rightarrow> unit io" where
  "cache_image env cache_dir path asset_id =
     io_bind (io_of (mio_import_image env path)) (\<lambda>img.
     cache_image_for_id cache_dir asset_id img)"

definition cache_mesh_for_id :: "string \<Rightarrow> string \<Rightarrow> mesh \<Rightarrow> unit io" where
  "cache_mesh_for_id cache_dir asset_id mesh =
     (let asset_cache_dir = p_join [cache_dir] asset_id;
          mesh_path = p_join asset_cache_dir MESH_FILENAME;
          str_json = tojson mesh
      in write_file mesh_path (Gzip 1 str_json))"

definition cache_mesh :: "env \<Rightarrow> string \<Rightarrow> string \<Rightarrow> string \<Rightarrow> unit io" where
  "cache_mesh env cache_dir path asset_id =
     io_bind (io_of (mio_import_mesh env path)) (\<lambda>mesh.
     io_bind (case mesh of
                TexturedTriMesh j t \<Rightarrow> cache_image_for_id cache_dir asset_id t
              | TriMesh j \<Rightarrow> io_return ()) (\<lambda>_.
     cache_mesh_for_id cache_dir asset_id mesh))"

definition ensure_cache_dir :: "env \<Rightarrow> string option \<Rightarrow> string io" where
  "ensure_cache_dir env cache_dir_arg =
     (let cache_dir0 = (case cache_dir_arg of
                          None \<Rightarrow> os_path_join (getcwd env) (CACHE_DIRNAME env)
                        | Some d \<Rightarrow> d);
          cache_dir = abspath env (expanduser env cache_dir0)
      in io_bind (\<lambda>w. if \<not> isdir w [cache_dir]
                       then io_bind (print_line ''Warning the cache dir does not exist - creating...'')
                              (\<lambda>_. os_mkdir [cache_dir]) w
                       else io_return () w) (\<lambda>_.
         io_bind (print_line (''cache:     '' @ cache_dir)) (\<lambda>_.
         io_return cache_dir)))"

fun serial_cacher_from ::
  "nat \<Rightarrow> nat \<Rightarrow> (string \<Rightarrow> string \<Rightarrow> unit io) \<Rightarrow> (string \<times> string) list \<Rightarrow> unit io" where
  "serial_cacher_from len i cache [] = io_return ()"
| "serial_cacher_from len i cache ((path, asset_id) # rest) =
     io_bind (print_line (''Caching '' @ str_of_nat (i + 1) @ ''/'' @ str_of_nat len
                          @ '' - '' @ asset_id)) (\<lambda>_.
     io_bind (cache path asset_id) (\<lambda>_.
     serial_cacher_from len (i + 1) cache rest))"

definition serial_cacher ::
  "(string \<Rightarrow> string \<Rightarrow> unit io) \<Rightarrow> (string \<times> string) list \<Rightarrow> unit io" where
  "serial_cacher cache path_asset_id =
     serial_cacher_from (length path_asset_id) 0 cache path_asset_id"

text \<open>The list comprehension \<^verbatim>\<open>[(asset_id_to_paths[a_id], a_id) for a_id in uncached]\<close>;
  a missing key raises.\<close>

fun paths_with_ids :: "(string \<rightharpoonup> string) \<Rightarrow> string list \<Rightarrow> error + (string \<times> string) list" where
  "paths_with_ids asset_id_to_paths [] = Inr []"
| "paths_with_ids asset_id_to_paths (a_id # rest) =
     (case asset_id_to_paths a_id of
        None \<Rightarrow> Inl (RuntimeError (''KeyError: '' @ a_id))
      | Some path \<Rightarrow>
          (case paths_with_ids asset_id_to_paths rest of
             Inl e \<Rightarrow> Inl e
           | Inr xs \<Rightarrow> Inr ((path, a_id) # xs)))"

definition build_cache ::
  "env \<Rightarrow> ((string \<Rightarrow> string \<Rightarrow> unit io) \<Rightarrow> (string \<times> string) list \<Rightarrow> unit io)
       \<Rightarrow> (string \<Rightarrow> string \<Rightarrow> string list)
       \<Rightarrow> (string \<Rightarrow> string \<Rightarrow> string \<Rightarrow> unit io)
       \<Rightarrow> string \<Rightarrow> bool \<Rightarrow> string option \<Rightarrow> string option \<Rightarrow> string io" where
  "build_cache env cacher_f asset_path_f cache_f asset_dir_arg recursive ext cache_dir_arg =
     io_bind (ensure_asset_dir env asset_dir_arg) (\<lambda>asset_dir.
     io_bind (ensure_cache_dir env cache_dir_arg) (\<lambda>cache_dir.
     io_bind (if recursive then print_line ''assets dir will be searched recursively.''
              else io_return ()) (\<lambda>_.
     io_bind (case ext of
                Some e \<Rightarrow> io_bind (print_line (''only assets of type '' @ (''.'' @ e) @ '' will be loaded.''))
                            (\<lambda>_. io_return (''.'' @ e))
              | None \<Rightarrow> io_return []) (\<lambda>ext_str.
     (let glob_ptn = glob_pattern ext_str recursive in
      io_bind (io_of (build_asset_mapping (asset_path_f asset_dir glob_ptn))) (\<lambda>asset_id_to_paths.
      (let asset_ids = dom asset_id_to_paths in
       io_bind (os_listdir [cache_dir]) (\<lambda>cached.
       (let uncached = asset_ids - cached in
        io_bind (print_line (str_of_nat (card uncached) @ '' assets need to be added to the cache'')) (\<lambda>_.
        (let cache = cache_asset cache_dir cache_f in
         io_bind (io_of (paths_with_ids asset_id_to_paths (set_iter env uncached))) (\<lambda>path_asset_id.
         io_bind (cacher_f cache path_asset_id) (\<lambda>_.
         io_bind (if 0 < card uncached
                  then print_line (str_of_nat (card uncached) @ '' assets cached.'')
                  else io_return ()) (\<lambda>_.
         io_return cache_dir))))))))))))))"

definition build_mesh_serial_cache ::
  "env \<Rightarrow> string \<Rightarrow> bool \<Rightarrow> string option \<Rightarrow> string option \<Rightarrow> string io" where
  "build_mesh_serial_cache env = build_cache env serial_cacher (mesh_paths env) (cache_mesh env)"

definition build_image_serial_cache ::
  "env \<Rightarrow> string \<Rightarrow> bool \<Rightarrow> string option \<Rightarrow> string option \<Rightarrow> string io" where
  "build_image_serial_cache env = build_cache env serial_cacher (image_paths env) (cache_image env)"

subsection \<open>Notions used to state the properties\<close>

text \<open>
  The first half of \<open>build_cache\<close>, up to the list handed to the cacher: the resolved
  cache directory, the set of uncached ids and the list of (path, id) pairs.
\<close>

definition uncached_assets ::
  "env \<Rightarrow> (string \<Rightarrow> string \<Rightarrow> string list) \<Rightarrow> string \<Rightarrow> bool \<Rightarrow> string option \<Rightarrow> string option
       \<Rightarrow> (string \<times> string set \<times> (string \<times> string) list) io" where
  "uncached_assets env asset_path_f asset_dir_arg recursive ext cache_dir_arg =
     io_bind (ensure_asset_dir env asset_dir_arg) (\<lambda>asset_dir.
     io_bind (ensure_cache_dir env cache_dir_arg) (\<lambda>cache_dir.
     io_bind (if recursive then print_line ''assets dir will be searched recursively.''
              else io_return ()) (\<lambda>_.
     io_bind (case ext of
                Some e \<Rightarrow> io_bind (print_line (''only assets of type '' @ (''.'' @ e) @ '' will be loaded.''))
                            (\<lambda>_. io_return (''.'' @ e))
              | None \<Rightarrow> io_return []) (\<lambda>ext_str.
     io_bind (io_of (build_asset_mapping (asset_path_f asset_dir (glob_pattern ext_str recursive))))
       (\<lambda>asset_id_to_paths.
     io_bind (os_listdir [cache_dir]) (\<lambda>cached.
     io_bind (print_line (str_of_nat (card (dom asset_id_to_paths - cached))
                          @ '' assets need to be added to the cache'')) (\<lambda>_.
     io_bind (io_of (paths_with_ids asset_id_to_paths (set_iter env (dom asset_id_to_paths - cached))))
       (\<lambda>path_asset_id.
     io_return (cache_dir, dom asset_id_to_paths - cached, path_asset_id)))))))))"

text \<open>A Python set is iterated in some order, each element once.\<close>

definition set_iteration :: "env \<Rightarrow> bool" where
  "set_iteration env \<longleftrightarrow>
     (\<forall>S. finite S \<longrightarrow> set (set_iter env S) = S \<and> distinct (set_iter env S))"

text \<open>
  The orchestrator as the spec words it: the pairs are taken in order, and for the
  \<open>i\<close>-th pair (counting from 1) a progress message is printed and then the caching
  function is invoked; the first exception ends the run. The message format is a
  parameter; \<open>spec_progress_message\<close> is the format the spec gives, with an en dash
  (UTF-8 bytes E2 80 93) between the counter and the id.
\<close>

fun run_all :: "unit io list \<Rightarrow> unit io" where
  "run_all [] = io_return ()"
| "run_all (act # acts) = io_bind act (\<lambda>_. run_all acts)"

definition announce_and_cache ::
  "(nat \<Rightarrow> nat \<Rightarrow> string \<Rightarrow> string) \<Rightarrow> (string \<Rightarrow> string \<Rightarrow> unit io) \<Rightarrow> (string \<times> string) list \<Rightarrow> unit io" where
  "announce_and_cache message cache path_asset_id =
     run_all (map (\<lambda>(i, path, asset_id).
                     io_bind (print_line (message (i + 1) (length path_asset_id) asset_id))
                       (\<lambda>_. cache path asset_id))
                  (enumerate 0 path_asset_id))"

definition spec_progress_message :: "nat \<Rightarrow> nat \<Rightarrow> string \<Rightarrow> string" where
  "spec_progress_message i n asset_id =
     str_of_nat i @ ''/'' @ str_of_nat n @ '' '' @ [CHR 0xE2, CHR 0x80, CHR 0x93]
       @ '' '' @ asset_id"

definition code_progress_message :: "nat \<Rightarrow> nat \<Rightarrow> string \<Rightarrow> string" where
  "code_progress_message i n asset_id =
     ''Caching '' @ str_of_nat i @ ''/'' @ str_of_nat n @ '' - '' @ asset_id"

text \<open>
  \<open>touches_only cache_dir A w w'\<close>: from \<open>w\<close> to \<open>w'\<close> nothing outside the cache directory
  has changed, the cache directory is still there, its entries other than those named
  in \<open>A\<close> are what they were, and no entry that was a directory has stopped being one.
\<close>

definition touches_only :: "string \<Rightarrow> string set \<Rightarrow> world \<Rightarrow> world \<Rightarrow> bool" where
  "touches_only cache_dir A w w' \<longleftrightarrow>
     (\<forall>top. top \<noteq> cache_dir \<longrightarrow> fs w' top = fs w top)
     \<and> (isdir w [cache_dir] \<longrightarrow> isdir w' [cache_dir])
     \<and> (\<forall>b. b \<notin> A \<longrightarrow> lookup w' [cache_dir, b] = lookup w [cache_dir, b])
     \<and> (\<forall>b. isdir w [cache_dir, b] \<longrightarrow> isdir w' [cache_dir, b])"

definition maintains :: "(world \<Rightarrow> world \<Rightarrow> bool) \<Rightarrow> 'a io \<Rightarrow> bool" where
  "maintains R act \<longleftrightarrow> (\<forall>w. R w (snd (act w)))"

text \<open>The cache directory a run works on: the path \<open>ensure_cache_dir\<close> resolves and returns.\<close>

definition resolved_cache_dir :: "env \<Rightarrow> string option \<Rightarrow> string" where
  "resolved_cache_dir env cache_dir_arg =
     abspath env (expanduser env
       (case cache_dir_arg of
          None \<Rightarrow> os_path_join (getcwd env) (CACHE_DIRNAME env)
        | Some d \<Rightarrow> d))"

subsection \<open>Example inputs\<close>

text \<open>
  An asset directory with three mesh files: \<open>a.obj\<close> decodes to a plain mesh, \<open>b.obj\<close>
  fails to decode, \<open>c.obj\<close> decodes to a mesh textured with a 3 by 2 image. Paths are
  already absolute, and the runtime iterates over a set of ids in the order a, b, c
  (any other strings after them); \<open>example_env_reversed\<close> differs in that order only.
\<close>

definition example_texture :: image where
  "example_texture =
     \<lparr>width = 3, height = 2, ioinfo_extension = ''.png'',
      ioinfo_filepath = ''/assets/c.png'', pixels = 0\<rparr>"

definition example_env :: env where
  "example_env =
     \<lparr>mio_import_image = (\<lambda>path. Inl (ImportFailure path)),
      mio_import_mesh = (\<lambda>path.
        if path = ''/assets/a.obj'' then Inr (TriMesh ''{}'')
        else if path = ''/assets/b.obj'' then Inl (ImportFailure path)
        else Inr (TexturedTriMesh ''{}'' example_texture)),
      mio_image_paths = (\<lambda>glob. []),
      mio_mesh_paths = (\<lambda>glob. [''/assets/a.obj'', ''/assets/b.obj'', ''/assets/c.obj'']),
      abspath = (\<lambda>path. path),
      expanduser = (\<lambda>path. path),
      getcwd = ''/'',
      CACHE_DIRNAME = ''cache'',
      set_iter = (\<lambda>S. filter (\<lambda>a. a \<in> S) [''a'', ''b'', ''c'']
                       @ sorted_list_of_set (S - {''a'', ''b'', ''c''}))\<rparr>"

definition example_env_reversed :: env where
  "example_env_reversed =
     example_env\<lparr>set_iter := (\<lambda>S. filter (\<lambda>a. a \<in> S) [''c'', ''b'', ''a'']
                                   @ sorted_list_of_set (S - {''a'', ''b'', ''c''}))\<rparr>"

text \<open>Two worlds: an empty cache directory, and one that holds a stray regular file
  named \<open>b\<close>.\<close>

definition example_world :: world where
  "example_world =
     \<lparr>stdout = [],
      fs = [''/assets'' \<mapsto> Dir Map.empty, ''/cache'' \<mapsto> Dir Map.empty]\<rparr>"


section \<open>Properties\<close>

subsection \<open>The asset mapper\<close>

lemma build_asset_mapping_from_append:
  "build_asset_mapping_from m (xs @ ys) =
     (case build_asset_mapping_from m xs of
        Inl e \<Rightarrow> Inl e
      | Inr m' \<Rightarrow> build_asset_mapping_from m' ys)"
  by (induction xs arbitrary: m) (auto simp: Let_def split: option.splits)

lemma build_asset_mapping_from_distinct:
  assumes "distinct (map asset_id_for_path ps)"
      and "asset_id_for_path ` set ps \<inter> dom m = {}"
  shows "\<exists>m'. build_asset_mapping_from m ps = Inr m'
            \<and> dom m' = dom m \<union> asset_id_for_path ` set ps
            \<and> (\<forall>p \<in> set ps. m' (asset_id_for_path p) = Some p)
            \<and> (\<forall>k. k \<notin> asset_id_for_path ` set ps \<longrightarrow> m' k = m k)"
  using assms
proof (induction ps arbitrary: m)
  case Nil
  then show ?case by simp
next
  case (Cons p ps)
  let ?a = "asset_id_for_path p"
  let ?m1 = "m(?a \<mapsto> p)"
  from Cons.prems have fresh: "m ?a = None" by auto
  from Cons.prems have d: "distinct (map asset_id_for_path ps)"
    and notin: "?a \<notin> asset_id_for_path ` set ps" by auto
  from Cons.prems notin have disj: "asset_id_for_path ` set ps \<inter> dom ?m1 = {}" by auto
  from Cons.IH [OF d disj] obtain m' where
    run: "build_asset_mapping_from ?m1 ps = Inr m'"
    and dom': "dom m' = dom ?m1 \<union> asset_id_for_path ` set ps"
    and get: "\<forall>q \<in> set ps. m' (asset_id_for_path q) = Some q"
    and keep: "\<forall>k. k \<notin> asset_id_for_path ` set ps \<longrightarrow> m' k = ?m1 k"
    by blast
  have "build_asset_mapping_from m (p # ps) = Inr m'"
    using fresh run by (simp add: Let_def)
  moreover have "dom m' = dom m \<union> asset_id_for_path ` set (p # ps)"
    using dom' by auto
  moreover have "\<forall>q \<in> set (p # ps). m' (asset_id_for_path q) = Some q"
    using get keep notin by auto
  moreover have "\<forall>k. k \<notin> asset_id_for_path ` set (p # ps) \<longrightarrow> m' k = m k"
    using keep by auto
  ultimately show ?case by blast
qed

text \<open>
  Claim C3. When two paths of the sequence share a filename stem, \<open>build_asset_mapping\<close>
  raises instead of returning a mapping. It raises at the first path \<open>ps ! j\<close> whose stem
  was already seen (the stems before it are pairwise distinct, and whatever follows it
  is never looked at), and the message names the stem, the earlier path \<open>ps ! i\<close> with
  that stem and the path \<open>ps ! j\<close>. The exception is a \<^verbatim>\<open>RuntimeError\<close>; the spec calls
  this error kind \<^verbatim>\<open>DuplicateAssetId\<close>.
\<close>

theorem build_asset_mapping_duplicate_stem:
  assumes "\<not> distinct (map asset_id_for_path ps)"
  shows "\<exists>i j. i < j \<and> j < length ps
             \<and> asset_id_for_path (ps ! i) = asset_id_for_path (ps ! j)
             \<and> distinct (map asset_id_for_path (take j ps))
             \<and> build_asset_mapping ps =
                 Inl (RuntimeError (not_unique_message (asset_id_for_path (ps ! j)) (ps ! i) (ps ! j)))
             \<and> (\<forall>rest. build_asset_mapping (take (Suc j) ps @ rest) =
                 Inl (RuntimeError (not_unique_message (asset_id_for_path (ps ! j)) (ps ! i) (ps ! j))))"
proof -
  from assms obtain xs y ys where y_in: "y \<in> set xs" and dxs: "distinct xs"
    and split: "map asset_id_for_path ps = xs @ y # ys"
    unfolding not_distinct_conv_prefix by blast
  define j where "j = length xs"
  have j_lt: "j < length ps"
    using arg_cong [OF split, of length] by (simp add: j_def)
  have xs_eq: "xs = map asset_id_for_path (take j ps)"
    using arg_cong [OF split, of "take j"] by (simp add: j_def take_map)
  have y_eq: "y = asset_id_for_path (ps ! j)"
    using arg_cong [OF split, of "\<lambda>l. l ! j"] j_lt by (simp add: j_def nth_append)
  from y_in obtain i where i_lt: "i < j" and yi: "xs ! i = y"
    by (metis in_set_conv_nth j_def)
  have stem_i: "asset_id_for_path (ps ! i) = y"
    using yi i_lt j_lt by (simp add: xs_eq)
  have d: "distinct (map asset_id_for_path (take j ps))"
    using dxs xs_eq by simp
  from build_asset_mapping_from_distinct [OF d, of Map.empty]
  obtain m where run: "build_asset_mapping_from Map.empty (take j ps) = Inr m"
    and get: "\<forall>p \<in> set (take j ps). m (asset_id_for_path p) = Some p"
    by auto
  have "ps ! i \<in> set (take j ps)"
    using i_lt j_lt by (metis in_set_conv_nth length_take min.absorb2 less_imp_le nth_take)
  with get have mi: "m (asset_id_for_path (ps ! j)) = Some (ps ! i)"
    using stem_i y_eq by metis
  have fail: "build_asset_mapping (take (Suc j) ps @ rest) =
      Inl (RuntimeError (not_unique_message (asset_id_for_path (ps ! j)) (ps ! i) (ps ! j)))" for rest
  proof -
    have "take (Suc j) ps @ rest = take j ps @ (ps ! j # rest)"
      using j_lt by (simp add: take_Suc_conv_app_nth)
    then show ?thesis
      using run mi
      by (simp add: build_asset_mapping_def build_asset_mapping_from_append Let_def)
  qed
  from fail [of "drop (Suc j) ps"] have whole: "build_asset_mapping ps =
      Inl (RuntimeError (not_unique_message (asset_id_for_path (ps ! j)) (ps ! i) (ps ! j)))"
    by simp
  show ?thesis
    using i_lt j_lt stem_i y_eq d fail whole by blast
qed

theorem build_asset_mapping_duplicate_stem_witness:
  "\<not> distinct (map asset_id_for_path [''/assets/a/face.jpg'', ''/assets/b/face.png''])
   \<and> build_asset_mapping [''/assets/a/face.jpg'', ''/assets/b/face.png''] =
       Inl (RuntimeError
         ''asset_id face is not unique - links to /assets/a/face.jpg and /assets/b/face.png'')"
proof -
  let ?ps = "[''/assets/a/face.jpg'', ''/assets/b/face.png'']"
  have h: "\<not> distinct (map asset_id_for_path ?ps)"
    by code_simp
  from build_asset_mapping_duplicate_stem [OF h]
  obtain i j where ij: "i < j" "j < length ?ps"
    and r: "build_asset_mapping ?ps =
      Inl (RuntimeError (not_unique_message (asset_id_for_path (?ps ! j)) (?ps ! i) (?ps ! j)))"
    by blast
  from ij have "j = 1" "i = 0" by auto
  moreover have "not_unique_message (asset_id_for_path (?ps ! 1)) (?ps ! 0) (?ps ! 1) =
      ''asset_id face is not unique - links to /assets/a/face.jpg and /assets/b/face.png''"
    by code_simp
  ultimately show ?thesis
    using h r by simp
qed

text \<open>
  Claim C4. For \<open>N\<close> paths with pairwise distinct filename stems, \<open>build_asset_mapping\<close>
  returns a mapping with exactly \<open>N\<close> keys, the keys are the stems of the paths, and each
  stem is mapped to its path.
\<close>

theorem build_asset_mapping_distinct_stems:
  assumes "distinct (map asset_id_for_path ps)"
  shows "\<exists>m. build_asset_mapping ps = Inr m
           \<and> card (dom m) = length ps
           \<and> dom m = asset_id_for_path ` set ps
           \<and> (\<forall>p \<in> set ps. m (asset_id_for_path p) = Some p)"
proof -
  from build_asset_mapping_from_distinct [OF assms, of Map.empty]
  obtain m where run: "build_asset_mapping_from Map.empty ps = Inr m"
    and d: "dom m = asset_id_for_path ` set ps"
    and get: "\<forall>p \<in> set ps. m (asset_id_for_path p) = Some p"
    by auto
  have "card (asset_id_for_path ` set ps) = length ps"
    using assms by (metis distinct_card length_map set_map)
  with run d get show ?thesis
    by (simp add: build_asset_mapping_def)
qed

theorem build_asset_mapping_distinct_stems_witness:
  "distinct (map asset_id_for_path [''/assets/photo1.jpg'', ''/assets/sub/mesh1.obj''])
   \<and> (\<exists>m. build_asset_mapping [''/assets/photo1.jpg'', ''/assets/sub/mesh1.obj''] = Inr m
          \<and> card (dom m) = 2
          \<and> m ''photo1'' = Some ''/assets/photo1.jpg''
          \<and> m ''mesh1'' = Some ''/assets/sub/mesh1.obj'')"
proof -
  let ?ps = "[''/assets/photo1.jpg'', ''/assets/sub/mesh1.obj'']"
  have h: "distinct (map asset_id_for_path ?ps)"
    by code_simp
  have s1: "asset_id_for_path ''/assets/photo1.jpg'' = ''photo1''"
    by code_simp
  have s2: "asset_id_for_path ''/assets/sub/mesh1.obj'' = ''mesh1''"
    by code_simp
  from build_asset_mapping_distinct_stems [OF h]
  obtain m where "build_asset_mapping ?ps = Inr m" "card (dom m) = length ?ps"
    "\<forall>p \<in> set ?ps. m (asset_id_for_path p) = Some p"
    by blast
  then show ?thesis
    using h s1 s2 by auto
qed

subsection \<open>Sequencing actions\<close>

lemma io_bind_return [simp]: "io_bind (io_return x) f = f x"
  by (rule ext) (simp add: io_bind_def io_return_def)

lemma io_bind_raise [simp]: "io_bind (io_raise e) f = io_raise e"
  by (rule ext) (simp add: io_bind_def io_raise_def)

lemma io_bind_return_right [simp]: "io_bind act io_return = act"
  by (rule ext) (auto simp: io_bind_def io_return_def split: prod.splits sum.splits)

lemma io_bind_assoc: "io_bind (io_bind act f) g = io_bind act (\<lambda>x. io_bind (f x) g)"
  by (rule ext) (auto simp: io_bind_def split: prod.splits sum.splits)

lemma io_bind_Inr: "act w = (Inr x, w1) \<Longrightarrow> io_bind act f w = f x w1"
  by (simp add: io_bind_def)

lemma io_bind_Inl: "act w = (Inl e, w1) \<Longrightarrow> io_bind act f w = (Inl e, w1)"
  by (simp add: io_bind_def)

lemma io_bind_eq_Inr:
  "io_bind act f w = (Inr y, w2) \<longleftrightarrow> (\<exists>x w1. act w = (Inr x, w1) \<and> f x w1 = (Inr y, w2))"
  by (auto simp: io_bind_def split: prod.splits sum.splits)

lemma io_of_Inr [simp]: "io_of (Inr x) = io_return x"
  by (rule ext) (simp add: io_of_def io_return_def)

lemma io_of_Inl [simp]: "io_of (Inl e) = io_raise e"
  by (rule ext) (simp add: io_of_def io_raise_def)

lemma io_bind_print_line:
  "io_bind (print_line s) f w = f () (w\<lparr>stdout := stdout w @ [s]\<rparr>)"
  by (simp add: io_bind_def print_line_def)

subsection \<open>The orchestrator\<close>

lemma run_all_append:
  "run_all (xs @ ys) = io_bind (run_all xs) (\<lambda>_. run_all ys)"
  by (induction xs) (simp_all add: io_bind_assoc)

lemma serial_cacher_from_run_all:
  "serial_cacher_from len i cache xs =
     run_all (map (\<lambda>(k, path, asset_id).
                     io_bind (print_line (code_progress_message (k + 1) len asset_id))
                       (\<lambda>_. cache path asset_id))
                  (enumerate i xs))"
proof (induction xs arbitrary: i)
  case Nil
  show ?case by simp
next
  case (Cons x xs)
  obtain path asset_id where x: "x = (path, asset_id)" by (cases x)
  show ?case
    by (simp add: x Cons.IH code_progress_message_def io_bind_assoc)
qed

text \<open>
  Claim C7, as amended. \<open>serial_cacher\<close> takes the pairs in order and, before each
  invocation of the caching function, prints a progress message with the 1-based
  position, the length of the list and the asset id. The message is
  \<^verbatim>\<open>Caching {i}/{total} - {id}\<close>: it starts with the word \<^verbatim>\<open>Caching\<close> and has an ASCII
  hyphen, where the spec gives \<^verbatim>\<open>{i}/{total} \<close>(en dash)\<^verbatim>\<open> {id}\<close>.
\<close>

theorem serial_cacher_announces_then_caches:
  "serial_cacher cache path_asset_id =
     announce_and_cache
       (\<lambda>i n asset_id. ''Caching '' @ str_of_nat i @ ''/'' @ str_of_nat n @ '' - '' @ asset_id)
       cache path_asset_id"
  unfolding serial_cacher_def announce_and_cache_def serial_cacher_from_run_all
    code_progress_message_def
  by (rule refl)

text \<open>
  The claim as the spec states it fails on the smallest input: for the one pair
  \<open>(/assets/a.jpg, a)\<close> the code prints \<^verbatim>\<open>Caching 1/1 - a\<close>, the spec's orchestrator
  would print \<^verbatim>\<open>1/1 \<close>(en dash)\<^verbatim>\<open> a\<close>.
\<close>

theorem serial_cacher_message_counterexample:
  "stdout (snd (serial_cacher (\<lambda>path asset_id. io_return ()) [(''/assets/a.jpg'', ''a'')]
                  \<lparr>stdout = [], fs = Map.empty\<rparr>)) = [''Caching 1/1 - a'']
   \<and> serial_cacher (\<lambda>path asset_id. io_return ()) [(''/assets/a.jpg'', ''a'')]
                  \<lparr>stdout = [], fs = Map.empty\<rparr>
       \<noteq> announce_and_cache spec_progress_message (\<lambda>path asset_id. io_return ())
            [(''/assets/a.jpg'', ''a'')] \<lparr>stdout = [], fs = Map.empty\<rparr>"
  by (simp add: serial_cacher_def announce_and_cache_def spec_progress_message_def
        io_bind_print_line print_line_def io_return_def str_of_nat.simps digit_char_def)
subsection \<open>The file system\<close>

lemma lookup_stdout_update [simp]: "lookup (w\<lparr>stdout := s\<rparr>) loc = lookup w loc"
  by (simp add: lookup_def)

lemma isdir_stdout_update [simp]: "isdir (w\<lparr>stdout := s\<rparr>) loc = isdir w loc"
  by (simp add: isdir_def)

lemma lookup_top: "lookup w [d] = fs w d"
  by (simp add: lookup_def split: option.splits)

lemma lookup_entry:
  "lookup w [cd, b] = (case fs w cd of Some (Dir m) \<Rightarrow> m b | _ \<Rightarrow> None)"
  by (simp add: lookup_def split: option.splits node.splits)

lemma lookup_file:
  "lookup w [cd, a, f] =
     (case fs w cd of
        Some (Dir m) \<Rightarrow> (case m a of Some (Dir files) \<Rightarrow> files f | _ \<Rightarrow> None)
      | _ \<Rightarrow> None)"
  by (simp add: lookup_def split: option.splits node.splits)

lemma isdir_top: "isdir w [d] \<longleftrightarrow> (\<exists>m. fs w d = Some (Dir m))"
  by (simp add: isdir_def lookup_top split: option.splits node.splits)

lemma isdir_entry:
  "isdir w [cd, b] \<longleftrightarrow> (\<exists>m files. fs w cd = Some (Dir m) \<and> m b = Some (Dir files))"
  by (auto simp: isdir_def lookup_entry split: option.splits node.splits)


lemma store_top: "store [d] new w = w\<lparr>fs := (fs w)(d \<mapsto> new)\<rparr>"
  by (simp add: store_def)

lemma store_entry:
  "store [cd, a] new w =
     (case fs w cd of
        Some (Dir m) \<Rightarrow> w\<lparr>fs := (fs w)(cd \<mapsto> Dir (m(a \<mapsto> new)))\<rparr>
      | _ \<Rightarrow> w)"
  by (auto simp: store_def fun_upd_idem split: option.splits node.splits)

lemma store_file:
  "store [cd, a, f] new w =
     (case fs w cd of
        Some (Dir m) \<Rightarrow>
          (case m a of
             Some (Dir files) \<Rightarrow> w\<lparr>fs := (fs w)(cd \<mapsto> Dir (m(a \<mapsto> Dir (files(f \<mapsto> new)))))\<rparr>
           | _ \<Rightarrow> w)
      | _ \<Rightarrow> w)"
  by (auto simp: store_def fun_upd_idem split: option.splits node.splits)

lemma os_mkdir_entry:
  assumes "fs w cd = Some (Dir m)" and "m a = None"
  shows "os_mkdir [cd, a] w = (Inr (), w\<lparr>fs := (fs w)(cd \<mapsto> Dir (m(a \<mapsto> Dir Map.empty)))\<rparr>)"
  using assms by (simp add: os_mkdir_def lookup_entry isdir_top store_entry)

lemma write_file_entry:
  assumes "fs w cd = Some (Dir m)" and "m a = Some (Dir files)"
      and "\<forall>sub. files f \<noteq> Some (Dir sub)"
  shows "write_file [cd, a, f] c w =
           (Inr (), w\<lparr>fs := (fs w)(cd \<mapsto> Dir (m(a \<mapsto> Dir (files(f \<mapsto> File c)))))\<rparr>)"
  using assms
  by (auto simp: write_file_def isdir_def lookup_file lookup_entry store_file
           split: option.splits node.splits)

subsection \<open>What caching an asset can change\<close>

lemma touches_only_refl [simp]: "touches_only cd A w w"
  by (simp add: touches_only_def)

lemma touches_only_trans:
  "touches_only cd A w1 w2 \<Longrightarrow> touches_only cd A w2 w3 \<Longrightarrow> touches_only cd A w1 w3"
  by (simp add: touches_only_def)

lemma touches_only_mono: "touches_only cd A w w' \<Longrightarrow> A \<subseteq> B \<Longrightarrow> touches_only cd B w w'"
  by (auto simp: touches_only_def)

lemma touches_only_stdout [simp]: "touches_only cd A w (w\<lparr>stdout := s\<rparr>)"
  by (simp add: touches_only_def lookup_def isdir_def)

lemma maintains_bind:
  assumes "maintains (touches_only cd A) act"
      and "\<And>x. maintains (touches_only cd A) (f x)"
  shows "maintains (touches_only cd A) (io_bind act f)"
  unfolding maintains_def
proof
  fix w
  obtain r w1 where a: "act w = (r, w1)" by (cases "act w")
  from assms(1) a have t1: "touches_only cd A w w1"
    by (metis maintains_def snd_conv)
  show "touches_only cd A w (snd (io_bind act f w))"
  proof (cases r)
    case (Inl e)
    with a t1 show ?thesis by (simp add: io_bind_def)
  next
    case (Inr x)
    from assms(2) [of x] have "touches_only cd A w1 (snd (f x w1))"
      by (simp add: maintains_def)
    with t1 a Inr show ?thesis
      by (auto simp: io_bind_def intro: touches_only_trans)
  qed
qed

lemma maintains_return [simp]: "maintains (touches_only cd A) (io_return x)"
  by (simp add: maintains_def io_return_def)


lemma maintains_io_of [simp]: "maintains (touches_only cd A) (io_of r)"
  by (simp add: maintains_def io_of_def)

lemma maintains_print_line [simp]: "maintains (touches_only cd A) (print_line s)"
  by (simp add: maintains_def print_line_def)

lemma maintains_world_test:
  assumes "maintains (touches_only cd A) act1" and "maintains (touches_only cd A) act2"
  shows "maintains (touches_only cd A) (\<lambda>w. if P w then act1 w else act2 w)"
  using assms by (simp add: maintains_def)

lemma maintains_mono:
  "maintains (touches_only cd A) act \<Longrightarrow> A \<subseteq> B \<Longrightarrow> maintains (touches_only cd B) act"
  by (auto simp: maintains_def intro: touches_only_mono)

lemma maintains_os_mkdir_entry: "maintains (touches_only cd {a}) (os_mkdir [cd, a])"
  unfolding maintains_def touches_only_def
  by (auto simp: os_mkdir_def lookup_entry isdir_top isdir_entry store_entry
           split: option.splits node.splits)


lemma maintains_write_file: "maintains (touches_only cd {a}) (write_file [cd, a, f] c)"
  unfolding maintains_def touches_only_def
  by (auto simp: write_file_def lookup_entry isdir_top isdir_entry store_file
           split: option.splits node.splits)

lemma maintains_save_jpg_thumbnail_file:
  "maintains (touches_only cd {a}) (save_jpg_thumbnail_file img [cd, a, f] width_arg)"
  unfolding save_jpg_thumbnail_file_def Let_def split_def
  by (intro maintains_bind maintains_io_of maintains_write_file)

lemma maintains_cache_image_for_id:
  "maintains (touches_only cd {a}) (cache_image_for_id cd a img)"
  unfolding cache_image_for_id_def Let_def p_join_def append_Cons append_Nil
  by (intro maintains_bind maintains_write_file maintains_save_jpg_thumbnail_file)
     (simp_all add: maintains_write_file)

lemma maintains_cache_image:
  "maintains (touches_only cd {a}) (cache_image env cd path a)"
  unfolding cache_image_def
  by (intro maintains_bind maintains_io_of maintains_cache_image_for_id)

lemma maintains_cache_mesh_for_id:
  "maintains (touches_only cd {a}) (cache_mesh_for_id cd a mesh)"
  unfolding cache_mesh_for_id_def Let_def p_join_def append_Cons append_Nil
  by (rule maintains_write_file)

lemma maintains_cache_mesh:
  "maintains (touches_only cd {a}) (cache_mesh env cd path a)"
  unfolding cache_mesh_def
  by (intro maintains_bind maintains_io_of maintains_cache_mesh_for_id)
     (simp add: maintains_cache_image_for_id split: mesh.splits)

lemma maintains_pipeline:
  "cache_f = cache_image env \<or> cache_f = cache_mesh env \<Longrightarrow>
   maintains (touches_only cd {a}) (cache_f cd path a)"
  by (auto simp: maintains_cache_image maintains_cache_mesh)

lemma maintains_cache_asset:
  assumes "maintains (touches_only cd {a}) (cache_f cd path a)"
  shows "maintains (touches_only cd {a}) (cache_asset cd cache_f path a)"
  unfolding cache_asset_def Let_def p_join_def append_Cons append_Nil
  by (intro maintains_bind maintains_print_line maintains_world_test maintains_os_mkdir_entry
        maintains_return assms)

lemma maintains_serial_cacher_from:
  assumes "\<And>p a. a \<in> snd ` set xs \<Longrightarrow> maintains (touches_only cd {a}) (cache p a)"
  shows "maintains (touches_only cd (snd ` set xs)) (serial_cacher_from len i cache xs)"
  using assms
proof (induction xs arbitrary: i)
  case Nil
  show ?case by simp
next
  case (Cons x xs)
  obtain path asset_id where x: "x = (path, asset_id)" by (cases x)
  have step: "maintains (touches_only cd (snd ` set (x # xs))) (cache path asset_id)"
    by (rule maintains_mono [OF Cons.prems [of asset_id path]]) (simp_all add: x)
  have rest0: "maintains (touches_only cd {a}) (cache p a)" if "a \<in> snd ` set xs" for p a
    using that by (intro Cons.prems) auto
  have rest: "maintains (touches_only cd (snd ` set (x # xs))) (serial_cacher_from len (i + 1) cache xs)"
    by (rule maintains_mono [OF Cons.IH [OF rest0]]) auto
  show ?case
    unfolding x serial_cacher_from.simps
    using step rest
    by (intro maintains_bind maintains_print_line) (simp_all add: x)
qed

lemma os_mkdir_entry_isdir:
  "os_mkdir [cd, a] w = (Inr (), w') \<Longrightarrow> isdir w' [cd, a]"
  by (auto simp: os_mkdir_def lookup_entry isdir_top isdir_entry store_entry
           split: option.splits node.splits if_splits)

lemma maintains_isdir:
  "maintains (touches_only cd A) act \<Longrightarrow> act w = (r, w') \<Longrightarrow> isdir w [cd, b] \<Longrightarrow> isdir w' [cd, b]"
  by (auto simp: maintains_def touches_only_def dest!: spec [of _ w])

lemma cache_asset_isdir:
  assumes ok: "cache_asset cd cache_f path a w = (Inr (), w')"
      and frame: "maintains (touches_only cd {a}) (cache_f cd path a)"
  shows "isdir w' [cd, a]"
proof -
  define w1 where "w1 = w\<lparr>stdout := stdout w @ [''Caching asset '' @ a @ '' from '' @ path]\<rparr>"
  define guard :: "unit io" where
    "guard = (\<lambda>w. if \<not> isdir w [cd, a]
                   then io_bind (print_line (''Cache for '' @ a @ '' does not exist - creating...''))
                          (\<lambda>_. os_mkdir [cd, a]) w
                   else io_return () w)"
  have unfold: "cache_asset cd cache_f path a w = io_bind guard (\<lambda>_. cache_f cd path a) w1"
    by (simp add: cache_asset_def Let_def p_join_def io_bind_print_line w1_def guard_def)
  from ok obtain u w2 where g: "guard w1 = (Inr u, w2)" and run: "cache_f cd path a w2 = (Inr (), w')"
    unfolding unfold io_bind_eq_Inr by blast
  have w2: "isdir w2 [cd, a]"
  proof (cases "isdir w1 [cd, a]")
    case True
    with g show ?thesis by (simp add: guard_def io_return_def)
  next
    case False
    with g have "os_mkdir [cd, a]
        (w1\<lparr>stdout := stdout w1 @ [''Cache for '' @ a @ '' does not exist - creating...'']\<rparr>) = (Inr (), w2)"
      by (simp add: guard_def io_bind_print_line)
    then show ?thesis by (rule os_mkdir_entry_isdir)
  qed
  from maintains_isdir [OF frame run w2] show ?thesis .
qed

subsection \<open>Rounding to a double\<close>

lemma pow2_power_int: "pow2 e = 2 powi e"
  by (simp add: pow2_def power_int_def inverse_eq_divide power_one_over)

lemma pow2_pos [simp]: "0 < pow2 e"
  by (simp add: pow2_power_int)

lemma pow2_nonzero [simp]: "pow2 e \<noteq> 0"
  by (simp add: pow2_power_int)

lemma pow2_52: "pow2 52 = 2 ^ 52"
  by (simp add: pow2_def)

lemma pow2_53: "pow2 53 = 2 ^ 53"
  by (simp add: pow2_def)

lemma pow2_add: "pow2 (a + b) = pow2 a * pow2 b"
  by (simp add: pow2_power_int power_int_add)

lemma pow2_diff: "pow2 (a - b) = pow2 a / pow2 b"
  by (simp add: pow2_power_int power_int_diff)

lemma pow2_nat: "pow2 (int n) = 2 ^ n"
  by (simp add: pow2_def)

lemma pow2_Suc: "pow2 (e + 1) = 2 * pow2 e"
  by (simp add: pow2_power_int power_int_add)

lemma pow2_mono: "a \<le> b \<Longrightarrow> pow2 a \<le> pow2 b"
  by (simp add: pow2_power_int power_int_increasing)

lemma pow2_strict_mono: "a < b \<Longrightarrow> pow2 a < pow2 b"
  by (simp add: pow2_power_int power_int_strict_increasing)

lemma pow2_less_iff: "pow2 a < pow2 b \<longleftrightarrow> a < b"
  by (metis pow2_mono pow2_strict_mono not_less)

lemma ilog2_bounds:
  assumes "0 < x"
  shows "pow2 (ilog2 x) \<le> x \<and> x < pow2 (ilog2 x + 1)"
proof -
  obtain p q where pq: "quotient_of x = (p, q)" by (cases "quotient_of x")
  have q_pos: "0 < q" using pq by (rule quotient_of_denom_pos)
  have x_eq: "x = of_int p / of_int q" using pq by (rule quotient_of_div)
  have p_pos: "0 < p"
    using assms q_pos by (simp add: x_eq zero_less_divide_iff)
  define bp where "bp = bitlen p"
  define bq where "bq = bitlen q"
  have bp1: "1 \<le> bp" and bq1: "1 \<le> bq"
    using p_pos q_pos bitlen_eq_zero_iff [of p] bitlen_eq_zero_iff [of q]
      bitlen_nonneg [of p] bitlen_nonneg [of q]
    by (auto simp: bp_def bq_def)
  from bitlen_bounds [OF p_pos] have p_lo: "(2::int) ^ nat (bp - 1) \<le> p" and p_hi: "p < 2 ^ nat bp"
    by (simp_all add: bp_def)
  from bitlen_bounds [OF q_pos] have q_lo: "(2::int) ^ nat (bq - 1) \<le> q" and q_hi: "q < 2 ^ nat bq"
    by (simp_all add: bq_def)
  have P_lo: "pow2 (bp - 1) \<le> of_int p"
  proof -
    have "(of_int ((2::int) ^ nat (bp - 1)) :: rat) \<le> of_int p"
      using p_lo by (simp only: of_int_le_iff)
    then show ?thesis using bp1 by (simp add: pow2_def)
  qed
  have P_hi: "of_int p < pow2 bp"
  proof -
    have "(of_int p :: rat) < of_int ((2::int) ^ nat bp)"
      using p_hi by (simp only: of_int_less_iff)
    then show ?thesis using bp1 by (simp add: pow2_def)
  qed
  have Q_lo: "pow2 (bq - 1) \<le> of_int q"
  proof -
    have "(of_int ((2::int) ^ nat (bq - 1)) :: rat) \<le> of_int q"
      using q_lo by (simp only: of_int_le_iff)
    then show ?thesis using bq1 by (simp add: pow2_def)
  qed
  have Q_hi: "of_int q < pow2 bq"
  proof -
    have "(of_int q :: rat) < of_int ((2::int) ^ nat bq)"
      using q_hi by (simp only: of_int_less_iff)
    then show ?thesis using bq1 by (simp add: pow2_def)
  qed
  have Qpos: "(0::rat) < of_int q" using q_pos by simp
  define k where "k = bp - bq"
  have upper: "x < pow2 (k + 1)"
  proof -
    have "of_int p < pow2 bp" by (rule P_hi)
    also have "pow2 bp = pow2 (k + 1) * pow2 (bq - 1)"
      by (simp add: k_def pow2_add [symmetric])
    also have "\<dots> \<le> pow2 (k + 1) * of_int q"
      using Q_lo by (simp add: mult_left_mono)
    finally show ?thesis
      using Qpos by (simp add: x_eq pos_divide_less_eq)
  qed
  have lower: "pow2 (k - 1) \<le> x"
  proof -
    have "pow2 (k - 1) * of_int q \<le> pow2 (k - 1) * pow2 bq"
      using Q_hi by (simp add: mult_left_mono less_imp_le)
    also have "\<dots> = pow2 (bp - 1)"
      by (simp add: k_def pow2_add [symmetric])
    also have "\<dots> \<le> of_int p" by (rule P_lo)
    finally show ?thesis
      using Qpos by (simp add: x_eq pos_le_divide_eq)
  qed
  have il: "ilog2 x = (if pow2 k \<le> x then k else k - 1)"
    by (simp add: ilog2_def pq Let_def k_def bp_def bq_def)
  show ?thesis
  proof (cases "pow2 k \<le> x")
    case True
    with il upper show ?thesis by simp
  next
    case False
    with il lower show ?thesis by simp
  qed
qed

lemma ilog2_unique:
  assumes "pow2 k \<le> x" and "x < pow2 (k + 1)"
  shows "ilog2 x = k"
proof -
  have xpos: "0 < x" by (rule less_le_trans [OF pow2_pos assms(1)])
  from ilog2_bounds [OF xpos] have lo: "pow2 (ilog2 x) \<le> x" and hi: "x < pow2 (ilog2 x + 1)"
    by simp_all
  from lo assms(2) have "pow2 (ilog2 x) < pow2 (k + 1)" by simp
  then have a: "ilog2 x < k + 1" by (simp only: pow2_less_iff)
  from assms(1) hi have "pow2 k < pow2 (ilog2 x + 1)" by simp
  then have b: "k < ilog2 x + 1" by (simp only: pow2_less_iff)
  from a b show ?thesis by simp
qed

lemma round_half_even_cases:
  "round_half_even m = \<lfloor>m\<rfloor> \<or> round_half_even m = \<lfloor>m\<rfloor> + 1"
  by (simp add: round_half_even_def Let_def)

lemma round_half_even_error: "\<bar>of_int (round_half_even m) - m\<bar> \<le> 1 / 2"
proof -
  have "of_int \<lfloor>m\<rfloor> \<le> m" "m < of_int \<lfloor>m\<rfloor> + 1" by linarith+
  then show ?thesis
    by (auto simp: round_half_even_def Let_def abs_le_iff)
qed

lemma round_half_even_ge_floor: "\<lfloor>m\<rfloor> \<le> round_half_even m"
  using round_half_even_cases [of m] by auto

lemma round_half_even_of_int [simp]: "round_half_even (of_int z) = z"
  by (simp add: round_half_even_def Let_def)

lemma round_half_even_up:
  assumes "of_int M - 1 / 2 \<le> m" and "m \<le> of_int M + 1 / 2" and "even M"
  shows "round_half_even m = M"
proof -
  consider "m < of_int M" | "of_int M \<le> m" by linarith
  then show ?thesis
  proof cases
    case 1
    have fl: "\<lfloor>m\<rfloor> = M - 1"
      using 1 assms(1) by (intro floor_unique) auto
    have odd: "odd (M - 1)" using assms(3) by simp
    show ?thesis
      using assms(1) 1 odd by (auto simp: round_half_even_def Let_def fl)
  next
    case 2
    have fl: "\<lfloor>m\<rfloor> = M"
      using 2 assms(2) by (intro floor_unique) auto
    show ?thesis
      using assms(2,3) 2 by (auto simp: round_half_even_def Let_def fl)
  qed
qed

text \<open>The anatomy of a rounding: the scaled value lies in the binade \<open>[2\<^sup>5\<^sup>2, 2\<^sup>5\<^sup>3)\<close>.\<close>

lemma fl_pos_eq:
  assumes "0 < x"
  shows "fl x = of_int (round_half_even (x / pow2 (ilog2 x - 52))) * pow2 (ilog2 x - 52)"
  using assms by (simp add: fl_def Let_def)

lemma scaled_bounds:
  assumes "0 < x"
  shows "2 ^ 52 \<le> x / pow2 (ilog2 x - 52)" and "x / pow2 (ilog2 x - 52) < 2 ^ 53"
proof -
  from ilog2_bounds [OF assms] have lo: "pow2 (ilog2 x) \<le> x" and hi: "x < pow2 (ilog2 x + 1)"
    by simp_all
  have "pow2 (ilog2 x) = pow2 (52 + (ilog2 x - 52))"
    by (rule arg_cong [of _ _ pow2]) simp
  then have "pow2 (ilog2 x) = pow2 52 * pow2 (ilog2 x - 52)"
    by (simp only: pow2_add)
  then have e1: "pow2 (ilog2 x) = 2 ^ 52 * pow2 (ilog2 x - 52)"
    by (simp only: pow2_52)
  have "pow2 (ilog2 x + 1) = pow2 (53 + (ilog2 x - 52))"
    by (rule arg_cong [of _ _ pow2]) simp
  then have "pow2 (ilog2 x + 1) = pow2 53 * pow2 (ilog2 x - 52)"
    by (simp only: pow2_add)
  then have e2: "pow2 (ilog2 x + 1) = 2 ^ 53 * pow2 (ilog2 x - 52)"
    by (simp only: pow2_53)
  show "2 ^ 52 \<le> x / pow2 (ilog2 x - 52)"
    using lo by (simp add: e1 pos_le_divide_eq)
  show "x / pow2 (ilog2 x - 52) < 2 ^ 53"
    using hi by (simp add: e2 pos_divide_less_eq)
qed

lemma fl_error:
  assumes "0 < x"
  shows "\<bar>fl x - x\<bar> \<le> x / 2 ^ 53"
proof -
  define e where "e = ilog2 x - 52"
  define m where "m = x / pow2 e"
  have x_eq: "x = m * pow2 e" by (simp add: m_def)
  have m_lo: "2 ^ 52 \<le> m" using scaled_bounds(1) [OF assms] by (simp add: m_def e_def)
  have "fl x - x = (of_int (round_half_even m) - m) * pow2 e"
    using fl_pos_eq [OF assms] by (simp add: m_def e_def algebra_simps)
  then have "\<bar>fl x - x\<bar> = \<bar>of_int (round_half_even m) - m\<bar> * pow2 e"
    by (simp add: abs_mult abs_of_pos)
  also have "\<dots> \<le> (1 / 2) * pow2 e"
    using round_half_even_error [of m] by (simp add: mult_right_mono)
  also have "\<dots> \<le> (m / 2 ^ 53) * pow2 e"
    using m_lo by (simp add: mult_right_mono)
  also have "\<dots> = x / 2 ^ 53" by (simp add: x_eq)
  finally show ?thesis .
qed

lemma fl_pos:
  assumes "0 < x"
  shows "0 < fl x"
proof -
  have "(2::rat) ^ 52 \<le> x / pow2 (ilog2 x - 52)"
    by (rule scaled_bounds(1) [OF assms])
  then have "(2::int) ^ 52 \<le> \<lfloor>x / pow2 (ilog2 x - 52)\<rfloor>"
    by (simp add: le_floor_iff)
  moreover have "(0::int) < 2 ^ 52" by simp
  ultimately have "0 < round_half_even (x / pow2 (ilog2 x - 52))"
    using round_half_even_ge_floor [of "x / pow2 (ilog2 x - 52)"] by linarith
  then show ?thesis
    using fl_pos_eq [OF assms] by simp
qed

lemma fl_zero [simp]: "fl 0 = 0"
  by (simp add: fl_def)

lemma fl_of_nat_exact:
  assumes "k < 2 ^ 53"
  shows "fl (of_nat k) = of_nat k"
proof (cases "k = 0")
  case True
  then show ?thesis by simp
next
  case False
  define x :: rat where "x = of_nat k"
  have xpos: "0 < x" using False by (simp add: x_def)
  define e where "e = ilog2 x - 52"
  have "pow2 (ilog2 x) \<le> x" using ilog2_bounds [OF xpos] by simp
  also have "x < 2 ^ 53"
  proof -
    have "(of_nat k :: rat) < of_nat (2 ^ 53)" using assms by (simp only: of_nat_less_iff)
    then show ?thesis by (simp add: x_def)
  qed
  also have "(2::rat) ^ 53 = pow2 53" by (simp only: pow2_53)
  finally have "ilog2 x < 53" by (simp only: pow2_less_iff)
  then have e_le: "e \<le> 0" by (simp add: e_def)
  have inv: "1 / pow2 e = of_int (2 ^ nat (- e))"
    using e_le by (cases "e = 0") (simp_all add: pow2_def)
  have "x / pow2 e = x * (1 / pow2 e)" by simp
  also have "\<dots> = of_int (int k) * of_int (2 ^ nat (- e))"
    by (simp only: inv) (simp add: x_def)
  also have "\<dots> = of_int (int k * 2 ^ nat (- e))" by simp
  finally have "x / pow2 e = of_int (int k * 2 ^ nat (- e))" .
  then have "round_half_even (x / pow2 e) = int k * 2 ^ nat (- e)"
    by (simp only: round_half_even_of_int)
  then have "fl x = of_int (int k * 2 ^ nat (- e)) * pow2 e"
    using fl_pos_eq [OF xpos] by (simp add: e_def)
  also have "\<dots> = x * (1 / pow2 e) * pow2 e"
    by (simp only: inv) (simp add: x_def)
  also have "\<dots> = x" by simp
  finally show ?thesis by (simp add: x_def)
qed

subsection \<open>The two halves of \<open>build_cache\<close>\<close>

lemma build_cache_phases:
  "build_cache env cacher_f asset_path_f cache_f asset_dir_arg recursive ext cache_dir_arg =
     io_bind (uncached_assets env asset_path_f asset_dir_arg recursive ext cache_dir_arg)
       (\<lambda>(cache_dir, uncached, path_asset_id).
          io_bind (cacher_f (cache_asset cache_dir cache_f) path_asset_id) (\<lambda>_.
          io_bind (if 0 < card uncached
                   then print_line (str_of_nat (card uncached) @ '' assets cached.'')
                   else io_return ()) (\<lambda>_.
          io_return cache_dir)))"
  by (simp add: build_cache_def uncached_assets_def Let_def io_bind_assoc)

lemma ensure_asset_dir_Inr:
  assumes "ensure_asset_dir env ad w = (Inr x, w1)"
  shows "x = abspath env (expanduser env ad)" and "isdir w [x]" and "fs w1 = fs w"
  using assms
  by (auto simp: ensure_asset_dir_def Let_def io_raise_def io_bind_print_line io_return_def
        split: if_splits)

lemma ensure_cache_dir_Inr:
  assumes "ensure_cache_dir env cda w = (Inr x, w1)"
  shows "x = resolved_cache_dir env cda" and "isdir w1 [x]"
proof -
  let ?cd = "resolved_cache_dir env cda"
  define guard :: "unit io" where
    "guard = (\<lambda>w. if \<not> isdir w [?cd]
                   then io_bind (print_line ''Warning the cache dir does not exist - creating...'')
                          (\<lambda>_. os_mkdir [?cd]) w
                   else io_return () w)"
  have unfold: "ensure_cache_dir env cda =
      io_bind guard (\<lambda>_. io_bind (print_line (''cache:     '' @ ?cd)) (\<lambda>_. io_return ?cd))"
    by (simp only: ensure_cache_dir_def Let_def resolved_cache_dir_def guard_def)
  from assms obtain u w2 where g: "guard w = (Inr u, w2)"
    and rest: "io_bind (print_line (''cache:     '' @ ?cd)) (\<lambda>_. io_return ?cd) w2 = (Inr x, w1)"
    unfolding unfold io_bind_eq_Inr by blast
  from rest show "x = ?cd"
    by (simp add: io_bind_print_line io_return_def)
  have "isdir w2 [?cd]"
  proof (cases "isdir w [?cd]")
    case True
    with g show ?thesis by (simp add: guard_def io_return_def)
  next
    case False
    with g have "os_mkdir [?cd]
        (w\<lparr>stdout := stdout w @ [''Warning the cache dir does not exist - creating...'']\<rparr>) = (Inr (), w2)"
      by (simp add: guard_def io_bind_print_line)
    then show ?thesis
      by (auto simp: os_mkdir_def store_top isdir_top lookup_top split: if_splits)
  qed
  with rest show "isdir w1 [x]"
    by (auto simp: io_bind_print_line io_return_def)
qed






lemma os_listdir_Inr:
  assumes "os_listdir [cd] w = (Inr L, w1)"
  shows "w1 = w" and "\<exists>listing. fs w cd = Some (Dir listing) \<and> L = dom listing"
  using assms by (auto simp: os_listdir_def lookup_top split: option.splits node.splits)

lemma paths_with_ids_Inr:
  "paths_with_ids m ids = Inr pai \<Longrightarrow> map snd pai = ids \<and> (\<forall>(p, a) \<in> set pai. m a = Some p)"
  by (induction ids arbitrary: pai) (auto split: option.splits sum.splits)

lemma paths_with_ids_total:
  "set ids \<subseteq> dom m \<Longrightarrow> \<exists>pai. paths_with_ids m ids = Inr pai"
  by (induction ids) (auto split: option.splits sum.splits)

lemma build_asset_mapping_from_finite:
  "build_asset_mapping_from m0 ps = Inr m \<Longrightarrow> finite (dom m0) \<Longrightarrow> finite (dom m)"
  by (induction ps arbitrary: m0) (auto simp: Let_def split: option.splits)

lemma build_asset_mapping_finite: "build_asset_mapping ps = Inr m \<Longrightarrow> finite (dom m)"
  unfolding build_asset_mapping_def by (erule build_asset_mapping_from_finite) simp

text \<open>What a successful first half has established.\<close>

lemma uncached_assets_Inr:
  assumes "uncached_assets env asset_path_f ad recursive ext cda w = (Inr (cd, U, pai), w0)"
  shows "cd = resolved_cache_dir env cda"
    and "isdir w [abspath env (expanduser env ad)]"
    and "\<exists>m listing.
           build_asset_mapping (asset_path_f (abspath env (expanduser env ad))
              (glob_pattern (case ext of None \<Rightarrow> [] | Some e \<Rightarrow> ''.'' @ e) recursive)) = Inr m
           \<and> fs w0 cd = Some (Dir listing)
           \<and> U = dom m - dom listing
           \<and> paths_with_ids m (set_iter env U) = Inr pai"
proof -
  from assms obtain asset_dir w1 cache_dir w2 u3 w3 ext_str w4 m w5 cached w6 u7 w7 where
    s1: "ensure_asset_dir env ad w = (Inr asset_dir, w1)"
    and s2: "ensure_cache_dir env cda w1 = (Inr cache_dir, w2)"
    and s3: "(if recursive then print_line ''assets dir will be searched recursively.''
              else io_return ()) w2 = (Inr u3, w3)"
    and s4: "(case ext of
                Some e \<Rightarrow> io_bind (print_line (''only assets of type '' @ (''.'' @ e) @ '' will be loaded.''))
                            (\<lambda>_. io_return (''.'' @ e))
              | None \<Rightarrow> io_return []) w3 = (Inr ext_str, w4)"
    and s5: "io_of (build_asset_mapping (asset_path_f asset_dir (glob_pattern ext_str recursive))) w4
               = (Inr m, w5)"
    and s6: "os_listdir [cache_dir] w5 = (Inr cached, w6)"
    and s7: "print_line (str_of_nat (card (dom m - cached))
                          @ '' assets need to be added to the cache'') w6 = (Inr u7, w7)"
    and s8: "io_bind (io_of (paths_with_ids m (set_iter env (dom m - cached))))
               (\<lambda>path_asset_id. io_return (cache_dir, dom m - cached, path_asset_id)) w7
               = (Inr (cd, U, pai), w0)"
    unfolding uncached_assets_def io_bind_eq_Inr [where act = "ensure_asset_dir env ad"]
      io_bind_eq_Inr [where act = "ensure_cache_dir env cda"]
      io_bind_eq_Inr [where act = "if recursive then print_line ''assets dir will be searched recursively.'' else io_return ()"]
      io_bind_eq_Inr [where act = "case ext of
                Some e \<Rightarrow> io_bind (print_line (''only assets of type '' @ (''.'' @ e) @ '' will be loaded.''))
                            (\<lambda>_. io_return (''.'' @ e))
              | None \<Rightarrow> io_return []"]
      io_bind_eq_Inr [where act = "io_of (build_asset_mapping x)" for x]
      io_bind_eq_Inr [where act = "os_listdir x" for x]
      io_bind_eq_Inr [where act = "print_line x" for x]
    by blast
  from ensure_asset_dir_Inr [OF s1] have ad: "asset_dir = abspath env (expanduser env ad)"
    and ad_dir: "isdir w [asset_dir]" by simp_all
  from ensure_cache_dir_Inr [OF s2] have cache_dir: "cache_dir = resolved_cache_dir env cda"
    by simp
  have ext_str: "ext_str = (case ext of None \<Rightarrow> [] | Some e \<Rightarrow> ''.'' @ e)"
    using s4 by (auto simp: io_return_def io_bind_print_line split: option.splits)
  from s5 have m: "build_asset_mapping (asset_path_f asset_dir (glob_pattern ext_str recursive)) = Inr m"
    and w5: "w5 = w4" by (simp_all add: io_of_def)
  from os_listdir_Inr [OF s6] obtain listing where w6: "w6 = w5"
    and listing: "fs w5 cache_dir = Some (Dir listing)" and cached: "cached = dom listing"
    by blast
  from s7 have w7: "fs w7 = fs w6" by (auto simp: print_line_def)
  from s8 have res: "paths_with_ids m (set_iter env (dom m - cached)) = Inr pai"
    and cd: "cd = cache_dir" and U: "U = dom m - cached" and w0: "w0 = w7"
    by (auto simp: io_of_def io_bind_def io_return_def split: sum.splits)
  show "cd = resolved_cache_dir env cda" using cd cache_dir by simp
  show "isdir w [abspath env (expanduser env ad)]" using ad ad_dir by simp
  show "\<exists>m listing.
           build_asset_mapping (asset_path_f (abspath env (expanduser env ad))
              (glob_pattern (case ext of None \<Rightarrow> [] | Some e \<Rightarrow> ''.'' @ e) recursive)) = Inr m
           \<and> fs w0 cd = Some (Dir listing)
           \<and> U = dom m - dom listing
           \<and> paths_with_ids m (set_iter env U) = Inr pai"
    using m listing cached res cd U w0 w7 w6 ad ext_str by auto
qed

lemma maintains_run:
  "maintains R act \<Longrightarrow> act w = (r, w') \<Longrightarrow> R w w'"
  by (auto simp: maintains_def dest!: spec [of _ w])

lemma touches_only_lookup:
  "touches_only cd A w w' \<Longrightarrow> b \<notin> A \<Longrightarrow> lookup w' [cd, b] = lookup w [cd, b]"
  by (simp add: touches_only_def)

lemma touches_only_isdir_entry:
  "touches_only cd A w w' \<Longrightarrow> isdir w [cd, b] \<Longrightarrow> isdir w' [cd, b]"
  by (simp add: touches_only_def)


lemma serial_cacher_from_append:
  "serial_cacher_from len i cache (xs @ ys) =
     io_bind (serial_cacher_from len i cache xs)
       (\<lambda>_. serial_cacher_from len (i + length xs) cache ys)"
proof (induction xs arbitrary: i)
  case Nil
  show ?case by simp
next
  case (Cons x xs)
  obtain path asset_id where x: "x = (path, asset_id)" by (cases x)
  show ?case
    by (simp add: x Cons.IH io_bind_assoc)
qed

lemma maintains_serial_cacher_pipeline:
  assumes "cache_f = cache_image env \<or> cache_f = cache_mesh env"
  shows "maintains (touches_only cd (snd ` set xs))
           (serial_cacher_from len i (cache_asset cd cache_f) xs)"
  by (rule maintains_serial_cacher_from) (rule maintains_cache_asset, rule maintains_pipeline [OF assms])

lemma serial_cacher_from_all_dirs:
  assumes cf: "cache_f = cache_image env \<or> cache_f = cache_mesh env"
      and run: "serial_cacher_from len i (cache_asset cd cache_f) xs w = (Inr (), w')"
  shows "\<forall>b \<in> snd ` set xs. isdir w' [cd, b]"
  using run
proof (induction xs arbitrary: i w)
  case Nil
  show ?case by simp
next
  case (Cons x xs)
  obtain path a where x: "x = (path, a)" by (cases x)
  from Cons.prems obtain w1 w2 where
    c: "cache_asset cd cache_f path a w1 = (Inr (), w2)"
    and r: "serial_cacher_from len (i + 1) (cache_asset cd cache_f) xs w2 = (Inr (), w')"
    by (auto simp: x io_bind_print_line io_bind_eq_Inr)
  have a_dir: "isdir w2 [cd, a]"
    by (rule cache_asset_isdir [OF c maintains_pipeline [OF cf]])
  have "touches_only cd (snd ` set xs) w2 w'"
    by (rule maintains_run [OF maintains_serial_cacher_pipeline [OF cf] r])
  with a_dir have "isdir w' [cd, a]"
    by (rule touches_only_isdir_entry [rotated])
  with Cons.IH [OF r] show ?case
    by (simp add: x)
qed





lemma uncached_assets_run:
  assumes ad: "isdir w [abspath env (expanduser env ad)]"
      and cd: "fs w (resolved_cache_dir env cda) = Some (Dir listing)"
      and m: "build_asset_mapping (asset_path_f (abspath env (expanduser env ad))
                (glob_pattern (case ext of None \<Rightarrow> [] | Some e \<Rightarrow> ''.'' @ e) recursive)) = Inr m"
      and pai: "paths_with_ids m (set_iter env (dom m - dom listing)) = Inr pai"
  shows "\<exists>out. uncached_assets env asset_path_f ad recursive ext cda w =
           (Inr (resolved_cache_dir env cda, dom m - dom listing, pai),
            w\<lparr>stdout := stdout w @ out\<rparr>)"
proof -
  let ?cd = "resolved_cache_dir env cda"
  let ?U = "dom m - dom listing"
  define w1 where "w1 = w\<lparr>stdout := stdout w @ [''assets:    '' @ abspath env (expanduser env ad)]\<rparr>"
  have s1: "ensure_asset_dir env ad w = (Inr (abspath env (expanduser env ad)), w1)"
    using ad by (simp add: ensure_asset_dir_def Let_def io_bind_print_line io_return_def w1_def)
  define w2 where "w2 = w1\<lparr>stdout := stdout w1 @ [''cache:     '' @ ?cd]\<rparr>"
  have cd_dir: "isdir w1 [?cd]"
    using cd by (simp add: isdir_top w1_def)
  have s2: "ensure_cache_dir env cda w1 = (Inr ?cd, w2)"
    using cd_dir
    by (simp add: ensure_cache_dir_def Let_def resolved_cache_dir_def [symmetric]
          print_line_def io_return_def w2_def io_bind_def)
  obtain out3 where s3: "(if recursive then print_line ''assets dir will be searched recursively.''
              else io_return ()) w2 = (Inr (), w2\<lparr>stdout := stdout w2 @ out3\<rparr>)"
  proof (cases recursive)
    case True
    then show ?thesis
      by (intro that [of "[''assets dir will be searched recursively.'']"]) (simp add: print_line_def)
  next
    case False
    then show ?thesis
      by (intro that [of "[]"]) (simp add: io_return_def)
  qed
  define w3 where "w3 = w2\<lparr>stdout := stdout w2 @ out3\<rparr>"
  obtain out4 where s4: "(case ext of
                Some e \<Rightarrow> io_bind (print_line (''only assets of type '' @ (''.'' @ e) @ '' will be loaded.''))
                            (\<lambda>_. io_return (''.'' @ e))
              | None \<Rightarrow> io_return []) w3
      = (Inr (case ext of None \<Rightarrow> [] | Some e \<Rightarrow> ''.'' @ e), w3\<lparr>stdout := stdout w3 @ out4\<rparr>)"
  proof (cases ext)
    case None
    then show ?thesis
      by (intro that [of "[]"]) (simp add: io_return_def)
  next
    case (Some e)
    then show ?thesis
      by (intro that [of "[''only assets of type '' @ (''.'' @ e) @ '' will be loaded.'']"])
         (simp add: io_bind_print_line io_return_def)
  qed
  define w4 where "w4 = w3\<lparr>stdout := stdout w3 @ out4\<rparr>"
  have fs4: "fs w4 = fs w"
    by (simp add: w4_def w3_def w2_def w1_def)
  have s6: "os_listdir [?cd] w4 = (Inr (dom listing), w4)"
    using cd by (simp add: os_listdir_def lookup_top fs4)
  define w5 where "w5 = w4\<lparr>stdout := stdout w4 @
      [str_of_nat (card ?U) @ '' assets need to be added to the cache'']\<rparr>"
  have run: "uncached_assets env asset_path_f ad recursive ext cda w = (Inr (?cd, ?U, pai), w5)"
    unfolding uncached_assets_def
    by (simp add: io_bind_Inr [where act = "ensure_asset_dir env ad", OF s1]
          io_bind_Inr [where act = "ensure_cache_dir env cda", OF s2]
          io_bind_Inr [where act = "if recursive then print_line ''assets dir will be searched recursively.''
              else io_return ()" and w = w2, OF s3 [folded w3_def]]
          io_bind_Inr [where act = "case ext of
                Some e \<Rightarrow> io_bind (print_line (''only assets of type '' @ (''.'' @ e) @ '' will be loaded.''))
                            (\<lambda>_. io_return (''.'' @ e))
              | None \<Rightarrow> io_return []" and w = w3, OF s4 [folded w4_def]]
          io_bind_Inr [where act = "os_listdir [?cd]", OF s6]
          m pai io_bind_print_line w5_def io_return_def)
  have "w5 = w\<lparr>stdout := stdout w @
      ([''assets:    '' @ abspath env (expanduser env ad)] @ [''cache:     '' @ ?cd] @ out3 @ out4
       @ [str_of_nat (card ?U) @ '' assets need to be added to the cache''])\<rparr>"
    by (simp add: w5_def w4_def w3_def w2_def w1_def)
  with run show ?thesis by blast
qed


subsection \<open>What a pipeline writes into a fresh entry\<close>

lemma file_names_distinct:
  "IMAGE_INFO_FILENAME \<noteq> TEXTURE_FILENAME" "IMAGE_INFO_FILENAME \<noteq> THUMBNAIL_FILENAME"
  "IMAGE_INFO_FILENAME \<noteq> MESH_FILENAME" "TEXTURE_FILENAME \<noteq> THUMBNAIL_FILENAME"
  "TEXTURE_FILENAME \<noteq> MESH_FILENAME" "THUMBNAIL_FILENAME \<noteq> MESH_FILENAME"
  by (simp_all add: IMAGE_INFO_FILENAME_def TEXTURE_FILENAME_def THUMBNAIL_FILENAME_def
        MESH_FILENAME_def)

lemma p_join_entry: "p_join [cd] a = [cd, a]" and p_join_file: "p_join [cd, a] f = [cd, a, f]"
  by (simp_all add: p_join_def)

lemma float_of_int_pos: "0 < n \<Longrightarrow> 0 < float_of_int n"
  by (simp add: float_of_int_def fl_pos)

lemma save_jpg_thumbnail_file_writes:
  assumes "0 < width img"
  shows "\<exists>h'. \<forall>path. save_jpg_thumbnail_file img path 640 =
           write_file path (Jpeg (Resized (PILImage img) (640, h')) (Some 20))"
proof -
  have nz: "float_of_int (int (width img)) \<noteq> 0"
    using float_of_int_pos [of "int (width img)"] assms by simp
  let ?h' = "nat (py_int (float_mul
      (fl (float_mul (float_of_int (int (height img))) 1 / float_of_int (int (width img))))
      (float_of_int (int 640))))"
  have "save_jpg_thumbnail_file img path 640 =
           write_file path (Jpeg (Resized (PILImage img) (640, ?h')) (Some 20))" for path
    using nz
    by (simp add: save_jpg_thumbnail_file_def as_PILImage_def resize_def float_div_def Let_def)
  then show ?thesis by blast
qed

lemma cache_image_for_id_fresh:
  assumes cd: "fs w cd = Some (Dir m)" and a: "m a = Some (Dir Map.empty)"
      and pos: "0 < width img"
  shows "\<exists>h'. cache_image_for_id cd a img w =
           (Inr (), w\<lparr>fs := (fs w)(cd \<mapsto> Dir (m(a \<mapsto> Dir
              [IMAGE_INFO_FILENAME \<mapsto> File (Json_width_height (width img) (height img)),
               TEXTURE_FILENAME \<mapsto> File (if ioinfo_extension img = ''.jpg''
                                            then Copy_of (ioinfo_filepath img)
                                            else Jpeg (PILImage img) None),
               THUMBNAIL_FILENAME \<mapsto> File (Jpeg (Resized (PILImage img) (640, h')) (Some 20))])))\<rparr>)"
proof -
  from save_jpg_thumbnail_file_writes [OF pos] obtain h' where
    thumb: "\<And>path. save_jpg_thumbnail_file img path 640 =
              write_file path (Jpeg (Resized (PILImage img) (640, h')) (Some 20))"
    by blast
  let ?info = "File (Json_width_height (width img) (height img))"
  let ?tex = "File (if ioinfo_extension img = ''.jpg''
                    then Copy_of (ioinfo_filepath img) else Jpeg (PILImage img) None)"
  let ?f1 = "[IMAGE_INFO_FILENAME \<mapsto> ?info]"
  let ?f2 = "?f1(TEXTURE_FILENAME \<mapsto> ?tex)"
  define w1 where "w1 = w\<lparr>fs := (fs w)(cd \<mapsto> Dir (m(a \<mapsto> Dir ?f1)))\<rparr>"
  define w2 where "w2 = w\<lparr>fs := (fs w)(cd \<mapsto> Dir (m(a \<mapsto> Dir ?f2)))\<rparr>"
  have s1: "write_file [cd, a, IMAGE_INFO_FILENAME] (Json_width_height (width img) (height img)) w
              = (Inr (), w1)"
    using write_file_entry [OF cd a, of IMAGE_INFO_FILENAME] by (simp add: w1_def)
  have s2: "(if ioinfo_extension img = ''.jpg''
             then write_file [cd, a, TEXTURE_FILENAME] (Copy_of (ioinfo_filepath img))
             else write_file [cd, a, TEXTURE_FILENAME] (Jpeg (as_PILImage img) None)) w1
              = (Inr (), w2)"
    using write_file_entry [of w1 cd "m(a \<mapsto> Dir ?f1)" a ?f1 TEXTURE_FILENAME]
      file_names_distinct
    by (simp add: w1_def w2_def as_PILImage_def)
  have s3: "write_file [cd, a, THUMBNAIL_FILENAME] (Jpeg (Resized (PILImage img) (640, h')) (Some 20)) w2
      = (Inr (), w\<lparr>fs := (fs w)(cd \<mapsto> Dir (m(a \<mapsto> Dir
           (?f2(THUMBNAIL_FILENAME \<mapsto> File (Jpeg (Resized (PILImage img) (640, h')) (Some 20)))))))\<rparr>)"
    using write_file_entry [of w2 cd "m(a \<mapsto> Dir ?f2)" a ?f2 THUMBNAIL_FILENAME]
      file_names_distinct
    by (simp add: w2_def)
  have "cache_image_for_id cd a img w =
      (Inr (), w\<lparr>fs := (fs w)(cd \<mapsto> Dir (m(a \<mapsto> Dir
           (?f2(THUMBNAIL_FILENAME \<mapsto> File (Jpeg (Resized (PILImage img) (640, h')) (Some 20)))))))\<rparr>)"
    unfolding cache_image_for_id_def Let_def p_join_entry p_join_file thumb
    by (simp only: io_bind_Inr [where act = "write_file [cd, a, IMAGE_INFO_FILENAME]
              (Json_width_height (width img) (height img))" and w = w, OF s1]
          io_bind_Inr [where act = "if ioinfo_extension img = ''.jpg''
             then write_file [cd, a, TEXTURE_FILENAME] (Copy_of (ioinfo_filepath img))
             else write_file [cd, a, TEXTURE_FILENAME] (Jpeg (as_PILImage img) None)" and w = w1, OF s2]
          s3)
  then show ?thesis by blast
qed

lemma cache_mesh_for_id_entry:
  assumes "fs w cd = Some (Dir m)" and "m a = Some (Dir files)"
      and "\<forall>sub. files MESH_FILENAME \<noteq> Some (Dir sub)"
  shows "cache_mesh_for_id cd a mesh w =
           (Inr (), w\<lparr>fs := (fs w)(cd \<mapsto> Dir (m(a \<mapsto> Dir
              (files(MESH_FILENAME \<mapsto> File (Gzip 1 (tojson mesh)))))))\<rparr>)"
  using write_file_entry [OF assms]
  by (simp add: cache_mesh_for_id_def Let_def p_join_def)

lemma cache_asset_fresh:
  assumes cd: "fs w cd = Some (Dir m)" and a: "m a = None"
  shows "cache_asset cd cache_f path a w =
           cache_f cd path a
             (w\<lparr>stdout := stdout w @ [''Caching asset '' @ a @ '' from '' @ path,
                                       ''Cache for '' @ a @ '' does not exist - creating...''],
                fs := (fs w)(cd \<mapsto> Dir (m(a \<mapsto> Dir Map.empty)))\<rparr>)"
proof -
  let ?w1 = "w\<lparr>stdout := stdout w @ [''Caching asset '' @ a @ '' from '' @ path]\<rparr>"
  let ?w2 = "?w1\<lparr>stdout := stdout ?w1 @ [''Cache for '' @ a @ '' does not exist - creating...'']\<rparr>"
  have nd: "\<not> isdir ?w1 [cd, a]"
    using cd a by (simp add: isdir_entry)
  have mk: "os_mkdir [cd, a] ?w2 = (Inr (), ?w2\<lparr>fs := (fs ?w2)(cd \<mapsto> Dir (m(a \<mapsto> Dir Map.empty)))\<rparr>)"
    using cd a by (intro os_mkdir_entry) simp_all
  let ?G = "\<lambda>w. if \<not> isdir w [cd, a]
                 then os_mkdir [cd, a]
                        (w\<lparr>stdout := stdout w @ [''Cache for '' @ a @ '' does not exist - creating...'']\<rparr>)
                 else io_return () w"
  have guard: "?G ?w1 = (Inr (), ?w2\<lparr>fs := (fs ?w2)(cd \<mapsto> Dir (m(a \<mapsto> Dir Map.empty)))\<rparr>)"
    using nd by (simp only: if_True not_False_eq_True simp_thms mk)
  have "cache_asset cd cache_f path a w =
      cache_f cd path a (?w2\<lparr>fs := (fs ?w2)(cd \<mapsto> Dir (m(a \<mapsto> Dir Map.empty)))\<rparr>)"
    unfolding cache_asset_def Let_def p_join_entry io_bind_print_line
    by (rule io_bind_Inr [where act = ?G, OF guard])
  then show ?thesis by simp
qed

lemma cache_asset_mesh_fresh:
  assumes cd: "fs w cd = Some (Dir m)" and a: "m a = None"
      and imp: "mio_import_mesh env path = Inr mesh"
      and pos: "case mesh of TexturedTriMesh j t \<Rightarrow> 0 < width t | TriMesh j \<Rightarrow> True"
  shows "\<exists>files. cache_asset cd (cache_mesh env) path a w =
           (Inr (), w\<lparr>stdout := stdout w @ [''Caching asset '' @ a @ '' from '' @ path,
                                       ''Cache for '' @ a @ '' does not exist - creating...''],
                      fs := (fs w)(cd \<mapsto> Dir (m(a \<mapsto> Dir files)))\<rparr>)
         \<and> files MESH_FILENAME = Some (File (Gzip 1 (tojson mesh)))
         \<and> (case mesh of
              TriMesh j \<Rightarrow> files = [MESH_FILENAME \<mapsto> File (Gzip 1 j)]
            | TexturedTriMesh j t \<Rightarrow>
                (\<exists>h'. files =
                   [IMAGE_INFO_FILENAME \<mapsto> File (Json_width_height (width t) (height t)),
                    TEXTURE_FILENAME \<mapsto> File (if ioinfo_extension t = ''.jpg''
                                                 then Copy_of (ioinfo_filepath t)
                                                 else Jpeg (PILImage t) None),
                    THUMBNAIL_FILENAME \<mapsto> File (Jpeg (Resized (PILImage t) (640, h')) (Some 20)),
                    MESH_FILENAME \<mapsto> File (Gzip 1 j)]))"
proof -
  define w1 where "w1 = w\<lparr>stdout := stdout w @ [''Caching asset '' @ a @ '' from '' @ path,
                                       ''Cache for '' @ a @ '' does not exist - creating...''],
                fs := (fs w)(cd \<mapsto> Dir (m(a \<mapsto> Dir Map.empty)))\<rparr>"
  have start: "cache_asset cd (cache_mesh env) path a w = cache_mesh env cd path a w1"
    unfolding w1_def by (rule cache_asset_fresh [OF cd a])
  have cd1: "fs w1 cd = Some (Dir (m(a \<mapsto> Dir Map.empty)))" by (simp add: w1_def)
  show ?thesis
  proof (cases mesh)
    case (TriMesh j)
    have "cache_mesh env cd path a w1 =
        (Inr (), w1\<lparr>fs := (fs w1)(cd \<mapsto> Dir ((m(a \<mapsto> Dir Map.empty))(a \<mapsto> Dir
              [MESH_FILENAME \<mapsto> File (Gzip 1 (tojson mesh))])))\<rparr>)"
      using cache_mesh_for_id_entry [OF cd1, of a Map.empty mesh]
      by (simp add: cache_mesh_def imp TriMesh)
    then show ?thesis
      unfolding start by (intro exI [of _ "[MESH_FILENAME \<mapsto> File (Gzip 1 j)]"]) (simp add: w1_def TriMesh)
  next
    case (TexturedTriMesh j t)
    with pos have "0 < width t" by simp
    from cache_image_for_id_fresh [OF cd1 _ this, of a] obtain h' where
      img: "cache_image_for_id cd a t w1 =
           (Inr (), w1\<lparr>fs := (fs w1)(cd \<mapsto> Dir ((m(a \<mapsto> Dir Map.empty))(a \<mapsto> Dir
              [IMAGE_INFO_FILENAME \<mapsto> File (Json_width_height (width t) (height t)),
               TEXTURE_FILENAME \<mapsto> File (if ioinfo_extension t = ''.jpg''
                                            then Copy_of (ioinfo_filepath t)
                                            else Jpeg (PILImage t) None),
               THUMBNAIL_FILENAME \<mapsto> File (Jpeg (Resized (PILImage t) (640, h')) (Some 20))])))\<rparr>)"
      by auto
    let ?files3 = "[IMAGE_INFO_FILENAME \<mapsto> File (Json_width_height (width t) (height t)),
               TEXTURE_FILENAME \<mapsto> File (if ioinfo_extension t = ''.jpg''
                                            then Copy_of (ioinfo_filepath t)
                                            else Jpeg (PILImage t) None),
               THUMBNAIL_FILENAME \<mapsto> File (Jpeg (Resized (PILImage t) (640, h')) (Some 20))]"
    define w2 where "w2 = w1\<lparr>fs := (fs w1)(cd \<mapsto> Dir (m(a \<mapsto> Dir ?files3)))\<rparr>"
    have img': "cache_image_for_id cd a t w1 = (Inr (), w2)"
      using img by (simp add: w2_def)
    have cd2: "fs w2 cd = Some (Dir (m(a \<mapsto> Dir ?files3)))" by (simp add: w2_def)
    have nodir: "\<forall>sub. ?files3 MESH_FILENAME \<noteq> Some (Dir sub)"
      using file_names_distinct by simp
    have mesh_step: "cache_mesh_for_id cd a mesh w2 =
        (Inr (), w2\<lparr>fs := (fs w2)(cd \<mapsto> Dir ((m(a \<mapsto> Dir ?files3))(a \<mapsto> Dir
              (?files3(MESH_FILENAME \<mapsto> File (Gzip 1 (tojson mesh)))))))\<rparr>)"
      using cache_mesh_for_id_entry [of w2 cd "m(a \<mapsto> Dir ?files3)" a ?files3 mesh] cd2 nodir
      by simp
    have "cache_mesh env cd path a w1 =
        (Inr (), w2\<lparr>fs := (fs w2)(cd \<mapsto> Dir ((m(a \<mapsto> Dir ?files3))(a \<mapsto> Dir
              (?files3(MESH_FILENAME \<mapsto> File (Gzip 1 (tojson mesh)))))))\<rparr>)"
      by (simp add: cache_mesh_def imp TexturedTriMesh
            io_bind_Inr [where act = "cache_image_for_id cd a t", OF img']
            mesh_step [unfolded TexturedTriMesh])
    then show ?thesis
      unfolding start
      by (intro exI [of _ "?files3(MESH_FILENAME \<mapsto> File (Gzip 1 j))"])
         (auto simp: w1_def w2_def TexturedTriMesh)
  qed
qed


subsection \<open>The example inputs\<close>

lemma example_set_iteration: "set_iteration example_env"
  by (auto simp: set_iteration_def example_env_def)

lemma example_reversed_set_iteration: "set_iteration example_env_reversed"
  by (auto simp: set_iteration_def example_env_reversed_def example_env_def)

lemma example_ids:
  "asset_id_for_path ''/assets/a.obj'' = ''a''"
  "asset_id_for_path ''/assets/b.obj'' = ''b''"
  "asset_id_for_path ''/assets/c.obj'' = ''c''"
  by code_simp+

lemma example_mapping:
  "build_asset_mapping [''/assets/a.obj'', ''/assets/b.obj'', ''/assets/c.obj''] =
     Inr [''a'' \<mapsto> ''/assets/a.obj'', ''b'' \<mapsto> ''/assets/b.obj'', ''c'' \<mapsto> ''/assets/c.obj'']"
  by (simp add: build_asset_mapping_def Let_def example_ids)

lemma example_resolved: "resolved_cache_dir example_env (Some ''/cache'') = ''/cache''"
  by (simp add: resolved_cache_dir_def example_env_def)

lemma example_paths:
  "mesh_paths example_env ad glob_ptn = [''/assets/a.obj'', ''/assets/b.obj'', ''/assets/c.obj'']"
  by (simp add: mesh_paths_def asset_paths_def example_env_def)








subsection \<open>The first failure ends the run\<close>

lemma uncached_assets_distinct:
  assumes si: "set_iteration env"
      and d: "uncached_assets env asset_path_f ad recursive ext cda w = (Inr (cd, U, pai), w0)"
  shows "distinct (map snd pai)" and "snd ` set pai = U"
    and "\<forall>b \<in> U. lookup w0 [cd, b] = None"
proof -
  from uncached_assets_Inr [OF d] obtain m listing where
    m: "build_asset_mapping (asset_path_f (abspath env (expanduser env ad))
              (glob_pattern (case ext of None \<Rightarrow> [] | Some e \<Rightarrow> ''.'' @ e) recursive)) = Inr m"
    and listing: "fs w0 cd = Some (Dir listing)"
    and U: "U = dom m - dom listing"
    and pai: "paths_with_ids m (set_iter env U) = Inr pai"
    by blast
  have "finite U" using build_asset_mapping_finite [OF m] by (simp add: U)
  with si have it: "set (set_iter env U) = U" "distinct (set_iter env U)"
    by (simp_all add: set_iteration_def)
  from paths_with_ids_Inr [OF pai] have ms: "map snd pai = set_iter env U" by simp
  show "distinct (map snd pai)" by (simp add: ms it)
  show "snd ` set pai = U" using it(1) ms by (metis set_map)
  show "\<forall>b \<in> U. lookup w0 [cd, b] = None"
    using listing by (auto simp: U lookup_entry)
qed

text \<open>What the first failing call of a serial run leaves behind.\<close>

lemma first_failure_ends_run:
  assumes si: "set_iteration env"
      and cf: "cache_f = cache_image env \<or> cache_f = cache_mesh env"
      and d: "uncached_assets env asset_path_f ad recursive ext cda w = (Inr (cd, U, pai), w0)"
      and split: "pai = pre @ (path, a) # rest"
      and pre_ok: "serial_cacher_from (length pai) 0 (cache_asset cd cache_f) pre w0 = (Inr (), wk)"
      and fail: "cache_asset cd cache_f path a
                 (wk\<lparr>stdout := stdout wk @ [''Caching '' @ str_of_nat (length pre + 1) @ ''/''
                                              @ str_of_nat (length pai) @ '' - '' @ a]\<rparr>) = (Inl e, w')"
  shows "build_cache env serial_cacher asset_path_f cache_f ad recursive ext cda w = (Inl e, w')
         \<and> (\<forall>b \<in> snd ` set pre. isdir w' [cd, b])
         \<and> (\<forall>b \<in> snd ` set rest. lookup w' [cd, b] = None)"
proof -
  define n where "n = length pai"
  define wp where "wp = wk\<lparr>stdout := stdout wk @ [''Caching '' @ str_of_nat (length pre + 1) @ ''/''
                                              @ str_of_nat n @ '' - '' @ a]\<rparr>"
  note pre_ok' = pre_ok [folded n_def]
  note fail' = fail [folded n_def, folded wp_def]
  have "serial_cacher_from n 0 (cache_asset cd cache_f) (pre @ (path, a) # rest) w0 =
          serial_cacher_from n (0 + length pre) (cache_asset cd cache_f) ((path, a) # rest) wk"
    unfolding serial_cacher_from_append
    by (rule io_bind_Inr [where act = "serial_cacher_from n 0 (cache_asset cd cache_f) pre", OF pre_ok'])
  also have "\<dots> = io_bind (cache_asset cd cache_f path a)
                     (\<lambda>_. serial_cacher_from n (length pre + 1) (cache_asset cd cache_f) rest) wp"
    by (simp add: io_bind_print_line wp_def)
  also have "\<dots> = (Inl e, w')"
    by (rule io_bind_Inl [where act = "cache_asset cd cache_f path a" and w = wp, OF fail'])
  finally have ser: "serial_cacher (cache_asset cd cache_f) pai w0 = (Inl e, w')"
    by (simp add: serial_cacher_def n_def split [symmetric])
  have raised: "build_cache env serial_cacher asset_path_f cache_f ad recursive ext cda w = (Inl e, w')"
    by (simp add: build_cache_phases
          io_bind_Inr [where act = "uncached_assets env asset_path_f ad recursive ext cda", OF d]
          io_bind_Inl [where act = "serial_cacher (cache_asset cd cache_f) pai", OF ser])
  have step: "touches_only cd {a} wp w'"
    by (rule maintains_run [OF maintains_cache_asset [OF maintains_pipeline [OF cf]] fail'])
  have before: "isdir w' [cd, b]" if "b \<in> snd ` set pre" for b
  proof -
    from serial_cacher_from_all_dirs [OF cf pre_ok'] that have "isdir wk [cd, b]" by blast
    then have "isdir wp [cd, b]" by (simp add: wp_def)
    with step show ?thesis by (rule touches_only_isdir_entry)
  qed
  have after: "lookup w' [cd, b] = None" if "b \<in> snd ` set rest" for b
  proof -
    from uncached_assets_distinct [OF si d]
    have dist: "distinct (map snd pai)" and ids: "snd ` set pai = U"
      and fresh: "\<forall>b \<in> U. lookup w0 [cd, b] = None"
      by blast+
    from that ids have "b \<in> U" by (auto simp: split)
    with fresh have l0: "lookup w0 [cd, b] = None" by blast
    from dist that have nb: "b \<notin> snd ` set pre" and na: "b \<noteq> a"
      by (auto simp: split)
    have "touches_only cd (snd ` set pre) w0 wk"
      by (rule maintains_run [OF maintains_serial_cacher_pipeline [OF cf] pre_ok'])
    from this nb have "lookup wk [cd, b] = lookup w0 [cd, b]" by (rule touches_only_lookup)
    then have "lookup wp [cd, b] = None" by (simp add: wp_def l0)
    moreover from na have "b \<notin> {a}" by simp
    with step have "lookup w' [cd, b] = lookup wp [cd, b]"
      by (rule touches_only_lookup)
    ultimately show ?thesis by simp
  qed
  show ?thesis
  proof (intro conjI ballI)
    show "build_cache env serial_cacher asset_path_f cache_f ad recursive ext cda w = (Inl e, w')"
      by (rule raised)
    show "isdir w' [cd, b]" if "b \<in> snd ` set pre" for b
      using that by (rule before)
    show "lookup w' [cd, b] = None" if "b \<in> snd ` set rest" for b
      using that by (rule after)
  qed
qed


lemma example_diff:
  "\<exists>out. uncached_assets example_env (mesh_paths example_env) ''/assets'' False None (Some ''/cache'')
            example_world =
          (Inr (''/cache'', {''a'', ''b'', ''c''},
                [(''/assets/a.obj'', ''a''), (''/assets/b.obj'', ''b''), (''/assets/c.obj'', ''c'')]),
           example_world\<lparr>stdout := stdout example_world @ out\<rparr>)"
proof -
  let ?m = "[''a'' \<mapsto> ''/assets/a.obj'', ''b'' \<mapsto> ''/assets/b.obj'', ''c'' \<mapsto> ''/assets/c.obj'']"
  have U: "dom ?m - dom (Map.empty :: string \<rightharpoonup> node) = {''a'', ''b'', ''c''}" by auto
  have ad: "isdir example_world [abspath example_env (expanduser example_env ''/assets'')]"
    by (simp add: isdir_top example_world_def example_env_def)
  have cd: "fs example_world (resolved_cache_dir example_env (Some ''/cache'')) = Some (Dir Map.empty)"
    by (simp add: example_resolved example_world_def)
  have m: "build_asset_mapping (mesh_paths example_env (abspath example_env (expanduser example_env ''/assets''))
                (glob_pattern (case None of None \<Rightarrow> [] | Some e \<Rightarrow> ''.'' @ e) False)) = Inr ?m"
    by (simp only: example_paths example_mapping)
  have it: "set_iter example_env {''a'', ''b'', ''c''} = [''a'', ''b'', ''c'']"
    by (simp add: example_env_def)
  have pai: "paths_with_ids ?m (set_iter example_env (dom ?m - dom (Map.empty :: string \<rightharpoonup> node)))
      = Inr [(''/assets/a.obj'', ''a''), (''/assets/b.obj'', ''b''), (''/assets/c.obj'', ''c'')]"
    by (simp only: U it) simp
  from uncached_assets_run [where asset_path_f = "mesh_paths example_env" and env = example_env
      and ad = "''/assets''" and ext = None and recursive = False and cda = "Some ''/cache''",
      OF ad cd m pai]
  show ?thesis by (simp only: U example_resolved)
qed


subsection \<open>The order of the work list\<close>

lemma ensure_asset_dir_set_iter [simp]:
  "ensure_asset_dir (env\<lparr>set_iter := it\<rparr>) = ensure_asset_dir env"
  by (rule ext) (simp add: ensure_asset_dir_def)

lemma ensure_cache_dir_set_iter [simp]:
  "ensure_cache_dir (env\<lparr>set_iter := it\<rparr>) = ensure_cache_dir env"
  by (rule ext) (simp add: ensure_cache_dir_def split: option.split)

text \<open>
  Everything a run does before it builds the work list is independent of the iteration
  order: with another order the run reaches the same world with the same mapping and
  the same uncached set.
\<close>

lemma uncached_assets_steps:
  assumes d: "uncached_assets env asset_path_f ad recursive ext cda w = (Inr (cd, U, pai), w0)"
  shows "\<exists>m. finite U \<and> U \<subseteq> dom m \<and>
           (\<forall>it. uncached_assets (env\<lparr>set_iter := it\<rparr>) asset_path_f ad recursive ext cda w =
              io_bind (io_of (paths_with_ids m (it U))) (\<lambda>pai'. io_return (cd, U, pai')) w0)"
proof -
  from assms obtain asset_dir w1 cache_dir w2 u3 w3 ext_str w4 m w5 cached w6 u7 w7 where
    s1: "ensure_asset_dir env ad w = (Inr asset_dir, w1)"
    and s2: "ensure_cache_dir env cda w1 = (Inr cache_dir, w2)"
    and s3: "(if recursive then print_line ''assets dir will be searched recursively.''
              else io_return ()) w2 = (Inr u3, w3)"
    and s4: "(case ext of
                Some e \<Rightarrow> io_bind (print_line (''only assets of type '' @ (''.'' @ e) @ '' will be loaded.''))
                            (\<lambda>_. io_return (''.'' @ e))
              | None \<Rightarrow> io_return []) w3 = (Inr ext_str, w4)"
    and s5: "io_of (build_asset_mapping (asset_path_f asset_dir (glob_pattern ext_str recursive))) w4
               = (Inr m, w5)"
    and s6: "os_listdir [cache_dir] w5 = (Inr cached, w6)"
    and s7: "print_line (str_of_nat (card (dom m - cached))
                          @ '' assets need to be added to the cache'') w6 = (Inr u7, w7)"
    and s8: "io_bind (io_of (paths_with_ids m (set_iter env (dom m - cached))))
               (\<lambda>path_asset_id. io_return (cache_dir, dom m - cached, path_asset_id)) w7
               = (Inr (cd, U, pai), w0)"
    unfolding uncached_assets_def io_bind_eq_Inr [where act = "ensure_asset_dir env ad"]
      io_bind_eq_Inr [where act = "ensure_cache_dir env cda"]
      io_bind_eq_Inr [where act = "if recursive then print_line ''assets dir will be searched recursively.'' else io_return ()"]
      io_bind_eq_Inr [where act = "case ext of
                Some e \<Rightarrow> io_bind (print_line (''only assets of type '' @ (''.'' @ e) @ '' will be loaded.''))
                            (\<lambda>_. io_return (''.'' @ e))
              | None \<Rightarrow> io_return []"]
      io_bind_eq_Inr [where act = "io_of (build_asset_mapping x)" for x]
      io_bind_eq_Inr [where act = "os_listdir x" for x]
      io_bind_eq_Inr [where act = "print_line x" for x]
    by blast
  from s8 have cd: "cd = cache_dir" and U: "U = dom m - cached" and w0: "w0 = w7"
    by (auto simp: io_of_def io_bind_def io_return_def split: sum.splits)
  from s5 have m: "build_asset_mapping (asset_path_f asset_dir (glob_pattern ext_str recursive)) = Inr m"
    by (simp add: io_of_def)
  have fin: "finite U"
    using build_asset_mapping_finite [OF m] by (simp add: U)
  have "uncached_assets (env\<lparr>set_iter := it\<rparr>) asset_path_f ad recursive ext cda w =
          io_bind (io_of (paths_with_ids m (it U))) (\<lambda>pai'. io_return (cd, U, pai')) w0" for it
    unfolding uncached_assets_def ensure_asset_dir_set_iter ensure_cache_dir_set_iter
    by (simp add: io_bind_Inr [where act = "ensure_asset_dir env ad", OF s1]
          io_bind_Inr [where act = "ensure_cache_dir env cda", OF s2]
          io_bind_Inr [where act = "if recursive then print_line ''assets dir will be searched recursively.''
              else io_return ()" and w = w2, OF s3]
          io_bind_Inr [where act = "case ext of
                Some e \<Rightarrow> io_bind (print_line (''only assets of type '' @ (''.'' @ e) @ '' will be loaded.''))
                            (\<lambda>_. io_return (''.'' @ e))
              | None \<Rightarrow> io_return []" and w = w3, OF s4]
          io_bind_Inr [where act = "io_of (build_asset_mapping
              (asset_path_f asset_dir (glob_pattern ext_str recursive)))", OF s5]
          io_bind_Inr [where act = "os_listdir [cache_dir]", OF s6]
          io_bind_Inr [where act = "print_line (str_of_nat (card (dom m - cached))
                          @ '' assets need to be added to the cache'')", OF s7]
          cd U w0)
  with fin show ?thesis
    by (intro exI [of _ m]) (simp add: U)
qed

lemma paths_with_ids_run:
  "io_bind (io_of (paths_with_ids m ids)) (\<lambda>pai'. io_return (cd, U, pai')) w0 = (Inr (cd', U', pai), w1)
   \<longleftrightarrow> paths_with_ids m ids = Inr pai \<and> cd' = cd \<and> U' = U \<and> w1 = w0"
  by (cases "paths_with_ids m ids") (auto simp: io_of_def io_bind_def io_return_def io_raise_def)

lemma set_iter_same [simp]: "env\<lparr>set_iter := set_iter env\<rparr> = env"
  by simp

text \<open>The work list of a run and the work list of the run with another iteration order.\<close>

lemma work_list_orders:
  assumes si: "set_iteration env"
      and d: "uncached_assets env asset_path_f ad recursive ext cda w = (Inr (cd, U, pai), w0)"
      and it: "set_iteration (env\<lparr>set_iter := it\<rparr>)"
  shows "map snd pai = set_iter env U"
    and "\<exists>pai'. uncached_assets (env\<lparr>set_iter := it\<rparr>) asset_path_f ad recursive ext cda w
                   = (Inr (cd, U, pai'), w0)
              \<and> map snd pai' = it U \<and> (pai' = pai \<longleftrightarrow> it U = set_iter env U)"
proof -
  from uncached_assets_steps [OF d] obtain m where fin: "finite U" and sub: "U \<subseteq> dom m"
    and run: "\<And>it. uncached_assets (env\<lparr>set_iter := it\<rparr>) asset_path_f ad recursive ext cda w =
              io_bind (io_of (paths_with_ids m (it U))) (\<lambda>pai'. io_return (cd, U, pai')) w0"
    by blast
  have "io_bind (io_of (paths_with_ids m (set_iter env U))) (\<lambda>pai'. io_return (cd, U, pai')) w0
          = (Inr (cd, U, pai), w0)"
    unfolding run [of "set_iter env", simplified, symmetric] by (rule d)
  then have p: "paths_with_ids m (set_iter env U) = Inr pai"
    by (simp only: paths_with_ids_run)
  from paths_with_ids_Inr [OF p] show ms: "map snd pai = set_iter env U" by simp
  from it fin have "set (it U) = U" by (simp add: set_iteration_def)
  with sub have "set (it U) \<subseteq> dom m" by simp
  from paths_with_ids_total [OF this] obtain pai' where p': "paths_with_ids m (it U) = Inr pai'"
    by blast
  from paths_with_ids_Inr [OF p'] have ms': "map snd pai' = it U" by simp
  have r': "uncached_assets (env\<lparr>set_iter := it\<rparr>) asset_path_f ad recursive ext cda w
                   = (Inr (cd, U, pai'), w0)"
    unfolding run [of it] paths_with_ids_run using p' by simp
  have "pai' = pai \<longleftrightarrow> it U = set_iter env U"
  proof
    assume "pai' = pai"
    with ms ms' show "it U = set_iter env U" by simp
  next
    assume "it U = set_iter env U"
    with p p' show "pai' = pai" by simp
  qed
  with r' ms' show "\<exists>pai'. uncached_assets (env\<lparr>set_iter := it\<rparr>) asset_path_f ad recursive ext cda w
                   = (Inr (cd, U, pai'), w0)
              \<and> map snd pai' = it U \<and> (pai' = pai \<longleftrightarrow> it U = set_iter env U)"
    by blast
qed

text \<open>
  Claim C2, corrected. The code iterates the set of uncached ids as the runtime yields
  it and does not sort. The work list holds each uncached id once, in the order of that
  iteration, and it is this list that the cacher receives. A run under another
  iteration order reaches the same point with the same uncached set, and its work list
  is the same exactly when the two orders agree on that set; then the two runs are the
  same altogether.
\<close>

theorem build_cache_order_is_set_iteration_order:
  assumes si: "set_iteration env"
      and d: "uncached_assets env asset_path_f ad recursive ext cda w = (Inr (cd, U, pai), w0)"
      and it: "set_iteration (env\<lparr>set_iter := it\<rparr>)"
  shows "map snd pai = set_iter env U \<and> distinct (map snd pai) \<and> set (map snd pai) = U
       \<and> build_cache env cacher_f asset_path_f cache_f ad recursive ext cda w =
             io_bind (cacher_f (cache_asset cd cache_f) pai) (\<lambda>_.
             io_bind (if 0 < card U
                      then print_line (str_of_nat (card U) @ '' assets cached.'')
                      else io_return ()) (\<lambda>_.
             io_return cd)) w0
       \<and> (\<exists>pai'. uncached_assets (env\<lparr>set_iter := it\<rparr>) asset_path_f ad recursive ext cda w
                     = (Inr (cd, U, pai'), w0)
                \<and> map snd pai' = it U \<and> (pai' = pai \<longleftrightarrow> it U = set_iter env U))
       \<and> (it U = set_iter env U \<longrightarrow>
            build_cache (env\<lparr>set_iter := it\<rparr>) cacher_f asset_path_f cache_f ad recursive ext cda w
            = build_cache env cacher_f asset_path_f cache_f ad recursive ext cda w)"
proof -
  note order = work_list_orders [OF si d it]
  from uncached_assets_distinct [OF si d]
  have dist: "distinct (map snd pai)" and ids: "set (map snd pai) = U"
    by simp_all
  have run: "build_cache env cacher_f asset_path_f cache_f ad recursive ext cda w =
             io_bind (cacher_f (cache_asset cd cache_f) pai) (\<lambda>_.
             io_bind (if 0 < card U
                      then print_line (str_of_nat (card U) @ '' assets cached.'')
                      else io_return ()) (\<lambda>_.
             io_return cd)) w0"
    by (simp add: build_cache_phases
          io_bind_Inr [where act = "uncached_assets env asset_path_f ad recursive ext cda", OF d])
  have same: "build_cache (env\<lparr>set_iter := it\<rparr>) cacher_f asset_path_f cache_f ad recursive ext cda w
            = build_cache env cacher_f asset_path_f cache_f ad recursive ext cda w"
    if eq: "it U = set_iter env U"
  proof -
    from order(2) eq
    have "uncached_assets (env\<lparr>set_iter := it\<rparr>) asset_path_f ad recursive ext cda w
            = (Inr (cd, U, pai), w0)"
      by auto
    then show ?thesis
      unfolding run
      by (simp add: build_cache_phases
            io_bind_Inr [where act = "uncached_assets (env\<lparr>set_iter := it\<rparr>) asset_path_f ad
               recursive ext cda"])
  qed
  from order dist ids run same show ?thesis
    by (intro conjI impI)
qed

lemma example_reversed_diff:
  "\<exists>out. uncached_assets example_env_reversed (mesh_paths example_env_reversed) ''/assets'' False None
            (Some ''/cache'') example_world =
          (Inr (''/cache'', {''a'', ''b'', ''c''},
                [(''/assets/c.obj'', ''c''), (''/assets/b.obj'', ''b''), (''/assets/a.obj'', ''a'')]),
           example_world\<lparr>stdout := stdout example_world @ out\<rparr>)"
proof -
  let ?m = "[''a'' \<mapsto> ''/assets/a.obj'', ''b'' \<mapsto> ''/assets/b.obj'', ''c'' \<mapsto> ''/assets/c.obj'']"
  have U: "dom ?m - dom (Map.empty :: string \<rightharpoonup> node) = {''a'', ''b'', ''c''}" by auto
  have res: "resolved_cache_dir example_env_reversed (Some ''/cache'') = ''/cache''"
    by (simp add: resolved_cache_dir_def example_env_reversed_def example_env_def)
  have paths: "mesh_paths example_env_reversed ad glob_ptn
      = [''/assets/a.obj'', ''/assets/b.obj'', ''/assets/c.obj'']" for ad glob_ptn
    by (simp add: mesh_paths_def asset_paths_def example_env_reversed_def example_env_def)
  have ad: "isdir example_world [abspath example_env_reversed (expanduser example_env_reversed ''/assets'')]"
    by (simp add: isdir_top example_world_def example_env_reversed_def example_env_def)
  have cd: "fs example_world (resolved_cache_dir example_env_reversed (Some ''/cache''))
      = Some (Dir Map.empty)"
    by (simp add: res example_world_def)
  have m: "build_asset_mapping (mesh_paths example_env_reversed
                (abspath example_env_reversed (expanduser example_env_reversed ''/assets''))
                (glob_pattern (case None of None \<Rightarrow> [] | Some e \<Rightarrow> ''.'' @ e) False)) = Inr ?m"
    by (simp only: paths example_mapping)
  have it: "set_iter example_env_reversed {''a'', ''b'', ''c''} = [''c'', ''b'', ''a'']"
    by (simp add: example_env_reversed_def)
  have pai: "paths_with_ids ?m (set_iter example_env_reversed (dom ?m - dom (Map.empty :: string \<rightharpoonup> node)))
      = Inr [(''/assets/c.obj'', ''c''), (''/assets/b.obj'', ''b''), (''/assets/a.obj'', ''a'')]"
    by (simp only: U it) simp
  from uncached_assets_run [where asset_path_f = "mesh_paths example_env_reversed"
      and env = example_env_reversed
      and ad = "''/assets''" and ext = None and recursive = False and cda = "Some ''/cache''",
      OF ad cd m pai]
  show ?thesis by (simp only: U res)
qed

text \<open>Caching one mesh into an empty cache directory, then a mesh that fails to decode.\<close>

lemma cache_then_fail:
  assumes cd: "fs w0 cd = Some (Dir Map.empty)"
      and imp_x: "mio_import_mesh env px = Inr mesh"
      and pos: "case mesh of TexturedTriMesh j t \<Rightarrow> 0 < width t | TriMesh j \<Rightarrow> True"
      and imp_y: "mio_import_mesh env py = Inl e"
      and xy: "x \<noteq> y"
  shows "\<exists>wk w'. serial_cacher_from n 0 (cache_asset cd (cache_mesh env)) [(px, x)] w0 = (Inr (), wk)
           \<and> cache_asset cd (cache_mesh env) py y (wk\<lparr>stdout := stdout wk @ [msg]\<rparr>) = (Inl e, w')"
proof -
  let ?cache = "cache_asset cd (cache_mesh env)"
  define w1 where "w1 = w0\<lparr>stdout := stdout w0 @ [''Caching '' @ str_of_nat (0 + 1) @ ''/'' @ str_of_nat n
                                                   @ '' - '' @ x]\<rparr>"
  have cd1: "fs w1 cd = Some (Dir Map.empty)"
    by (simp add: w1_def cd)
  from cache_asset_mesh_fresh [OF cd1 _ imp_x pos, of x] obtain files where
    a: "?cache px x w1 =
          (Inr (), w1\<lparr>stdout := stdout w1 @ [''Caching asset '' @ x @ '' from '' @ px,
                                       ''Cache for '' @ x @ '' does not exist - creating...''],
                      fs := (fs w1)(cd \<mapsto> Dir [x \<mapsto> Dir files])\<rparr>)"
    by auto
  define w2 where "w2 = w1\<lparr>stdout := stdout w1 @ [''Caching asset '' @ x @ '' from '' @ px,
                                       ''Cache for '' @ x @ '' does not exist - creating...''],
                      fs := (fs w1)(cd \<mapsto> Dir [x \<mapsto> Dir files])\<rparr>"
  have a': "?cache px x w1 = (Inr (), w2)"
    unfolding w2_def by (rule a)
  have "serial_cacher_from n 0 ?cache [(px, x)] w0 = io_bind (?cache px x) (\<lambda>_. io_return ()) w1"
    unfolding w1_def by (simp only: serial_cacher_from.simps io_bind_print_line)
  also have "\<dots> = (Inr (), w2)"
    by (simp only: io_bind_Inr [where act = "?cache px x" and w = w1, OF a'] io_return_def)
  finally have pre_ok: "serial_cacher_from n 0 ?cache [(px, x)] w0 = (Inr (), w2)" .
  define w3 where "w3 = w2\<lparr>stdout := stdout w2 @ [msg]\<rparr>"
  have cd3: "fs w3 cd = Some (Dir [x \<mapsto> Dir files])"
    by (simp add: w3_def w2_def)
  have fresh: "[x \<mapsto> Dir files] y = None"
    using xy by simp
  have "\<exists>w'. ?cache py y w3 = (Inl e, w')"
    unfolding cache_asset_fresh [OF cd3 fresh]
    by (simp add: cache_mesh_def imp_y io_of_def io_bind_def io_raise_def)
  with pre_ok show ?thesis
    unfolding w3_def by blast
qed

theorem build_cache_order_is_set_iteration_order_witness:
  "set_iteration example_env
   \<and> set_iteration (example_env\<lparr>set_iter := set_iter example_env_reversed\<rparr>)
   \<and> (\<exists>w0. uncached_assets example_env (mesh_paths example_env) ''/assets'' False None (Some ''/cache'')
               example_world
             = (Inr (''/cache'', {''a'', ''b'', ''c''},
                     [(''/assets/a.obj'', ''a''), (''/assets/b.obj'', ''b''), (''/assets/c.obj'', ''c'')]), w0)
        \<and> (\<exists>pai'. uncached_assets (example_env\<lparr>set_iter := set_iter example_env_reversed\<rparr>)
                       (mesh_paths example_env) ''/assets'' False None (Some ''/cache'') example_world
                     = (Inr (''/cache'', {''a'', ''b'', ''c''}, pai'), w0)
                \<and> map snd pai' = [''c'', ''b'', ''a'']
                \<and> pai' \<noteq> [(''/assets/a.obj'', ''a''), (''/assets/b.obj'', ''b''), (''/assets/c.obj'', ''c'')]))
   \<and> set_iter example_env {''a'', ''b'', ''c''} = [''a'', ''b'', ''c'']"
proof -
  let ?pai = "[(''/assets/a.obj'', ''a''), (''/assets/b.obj'', ''b''), (''/assets/c.obj'', ''c'')]"
  have rev: "example_env\<lparr>set_iter := set_iter example_env_reversed\<rparr> = example_env_reversed"
    by (simp add: example_env_reversed_def)
  have it: "set_iteration (example_env\<lparr>set_iter := set_iter example_env_reversed\<rparr>)"
    unfolding rev by (rule example_reversed_set_iteration)
  from example_diff obtain w0 where
    d: "uncached_assets example_env (mesh_paths example_env) ''/assets'' False None (Some ''/cache'')
            example_world = (Inr (''/cache'', {''a'', ''b'', ''c''}, ?pai), w0)"
    by blast
  have o1: "set_iter example_env {''a'', ''b'', ''c''} = [''a'', ''b'', ''c'']"
    by (simp add: example_env_def)
  have o2: "set_iter example_env_reversed {''a'', ''b'', ''c''} = [''c'', ''b'', ''a'']"
    by (simp add: example_env_reversed_def)
  note t = build_cache_order_is_set_iteration_order [OF example_set_iteration d it,
      of serial_cacher "cache_mesh example_env"]
  from t obtain pai' where
    r: "uncached_assets (example_env\<lparr>set_iter := set_iter example_env_reversed\<rparr>)
                       (mesh_paths example_env) ''/assets'' False None (Some ''/cache'') example_world
                     = (Inr (''/cache'', {''a'', ''b'', ''c''}, pai'), w0)"
    and ms: "map snd pai' = set_iter example_env_reversed {''a'', ''b'', ''c''}"
    and eq: "pai' = ?pai \<longleftrightarrow>
               set_iter example_env_reversed {''a'', ''b'', ''c''} = set_iter example_env {''a'', ''b'', ''c''}"
    by blast
  from eq have ne: "pai' \<noteq> ?pai"
    by (simp only: o1 o2) simp
  from ms have ms': "map snd pai' = [''c'', ''b'', ''a'']"
    by (simp only: o2)
  from d r ms' ne
  have "\<exists>w0. uncached_assets example_env (mesh_paths example_env) ''/assets'' False None (Some ''/cache'')
               example_world = (Inr (''/cache'', {''a'', ''b'', ''c''}, ?pai), w0)
        \<and> (\<exists>pai'. uncached_assets (example_env\<lparr>set_iter := set_iter example_env_reversed\<rparr>)
                       (mesh_paths example_env) ''/assets'' False None (Some ''/cache'') example_world
                     = (Inr (''/cache'', {''a'', ''b'', ''c''}, pai'), w0)
                \<and> map snd pai' = [''c'', ''b'', ''a'']
                \<and> pai' \<noteq> ?pai)"
    by (intro exI [of _ w0] exI [of _ pai'] conjI)
  with example_set_iteration it o1 show ?thesis
    by (intro conjI)
qed

text \<open>
  Two runs over the same asset paths and the same empty cache directory, under two
  admissible iteration orders of the set of uncached ids: the work lists are in
  opposite orders, neither run sorts, and the runs end with different cache
  directories, since \<open>b.obj\<close> fails to decode after \<open>a\<close> alone was cached in one run and
  after \<open>c\<close> alone in the other.
\<close>

theorem build_cache_order_counterexample:
  "set_iteration example_env \<and> set_iteration example_env_reversed
   \<and> example_env_reversed = example_env\<lparr>set_iter := set_iter example_env_reversed\<rparr>
   \<and> fst (uncached_assets example_env (mesh_paths example_env) ''/assets'' False None (Some ''/cache'')
            example_world)
       = Inr (''/cache'', {''a'', ''b'', ''c''},
              [(''/assets/a.obj'', ''a''), (''/assets/b.obj'', ''b''), (''/assets/c.obj'', ''c'')])
   \<and> fst (uncached_assets example_env_reversed (mesh_paths example_env_reversed) ''/assets'' False None
            (Some ''/cache'') example_world)
       = Inr (''/cache'', {''a'', ''b'', ''c''},
              [(''/assets/c.obj'', ''c''), (''/assets/b.obj'', ''b''), (''/assets/a.obj'', ''a'')])
   \<and> (\<exists>w'. build_cache example_env serial_cacher (mesh_paths example_env) (cache_mesh example_env)
              ''/assets'' False None (Some ''/cache'') example_world
            = (Inl (ImportFailure ''/assets/b.obj''), w')
          \<and> isdir w' [''/cache'', ''a'']
          \<and> lookup w' [''/cache'', ''c''] = None)
   \<and> (\<exists>w'. build_cache example_env_reversed serial_cacher (mesh_paths example_env_reversed)
              (cache_mesh example_env_reversed) ''/assets'' False None (Some ''/cache'') example_world
            = (Inl (ImportFailure ''/assets/b.obj''), w')
          \<and> isdir w' [''/cache'', ''c'']
          \<and> lookup w' [''/cache'', ''a''] = None)"
proof -
  let ?fwd = "[(''/assets/a.obj'', ''a''), (''/assets/b.obj'', ''b''), (''/assets/c.obj'', ''c'')]"
  let ?bwd = "[(''/assets/c.obj'', ''c''), (''/assets/b.obj'', ''b''), (''/assets/a.obj'', ''a'')]"
  have rev: "example_env_reversed = example_env\<lparr>set_iter := set_iter example_env_reversed\<rparr>"
    by (simp add: example_env_reversed_def)
  from example_diff obtain out1 where
    d1: "uncached_assets example_env (mesh_paths example_env) ''/assets'' False None (Some ''/cache'')
            example_world
          = (Inr (''/cache'', {''a'', ''b'', ''c''}, ?fwd), example_world\<lparr>stdout := stdout example_world @ out1\<rparr>)"
    by blast
  from example_reversed_diff obtain out2 where
    d2: "uncached_assets example_env_reversed (mesh_paths example_env_reversed) ''/assets'' False None
            (Some ''/cache'') example_world
          = (Inr (''/cache'', {''a'', ''b'', ''c''}, ?bwd), example_world\<lparr>stdout := stdout example_world @ out2\<rparr>)"
    by blast
  have cd1: "fs (example_world\<lparr>stdout := stdout example_world @ out1\<rparr>) ''/cache'' = Some (Dir Map.empty)"
    and cd2: "fs (example_world\<lparr>stdout := stdout example_world @ out2\<rparr>) ''/cache'' = Some (Dir Map.empty)"
    by (simp_all add: example_world_def)
  have imp_a: "mio_import_mesh example_env ''/assets/a.obj'' = Inr (TriMesh ''{}'')"
    and imp_b: "mio_import_mesh example_env ''/assets/b.obj'' = Inl (ImportFailure ''/assets/b.obj'')"
    and imp_c: "mio_import_mesh example_env ''/assets/c.obj'' = Inr (TexturedTriMesh ''{}'' example_texture)"
    by (simp_all add: example_env_def)
  have imp_rb: "mio_import_mesh example_env_reversed ''/assets/b.obj'' = Inl (ImportFailure ''/assets/b.obj'')"
    and imp_rc: "mio_import_mesh example_env_reversed ''/assets/c.obj''
                   = Inr (TexturedTriMesh ''{}'' example_texture)"
    by (simp_all add: example_env_reversed_def example_env_def)
  have pos_a: "case TriMesh ''{}'' of TexturedTriMesh j t \<Rightarrow> 0 < width t | TriMesh j \<Rightarrow> True"
    by simp
  have pos_c: "case TexturedTriMesh ''{}'' example_texture of
                 TexturedTriMesh j t \<Rightarrow> 0 < width t | TriMesh j \<Rightarrow> True"
    by (simp add: example_texture_def)
  have ab: "''a'' \<noteq> ''b''" and cb: "''c'' \<noteq> ''b''" by simp_all
  have cf1: "cache_mesh example_env = cache_image example_env \<or> cache_mesh example_env = cache_mesh example_env"
    and cf2: "cache_mesh example_env_reversed = cache_image example_env_reversed
              \<or> cache_mesh example_env_reversed = cache_mesh example_env_reversed"
    by simp_all
  have split1: "?fwd = [(''/assets/a.obj'', ''a'')] @ (''/assets/b.obj'', ''b'') # [(''/assets/c.obj'', ''c'')]"
    and split2: "?bwd = [(''/assets/c.obj'', ''c'')] @ (''/assets/b.obj'', ''b'') # [(''/assets/a.obj'', ''a'')]"
    by simp_all
  from cache_then_fail [OF cd1 imp_a pos_a imp_b ab] obtain wk1 w1 where
    pre1: "serial_cacher_from (length ?fwd) 0 (cache_asset ''/cache'' (cache_mesh example_env))
             [(''/assets/a.obj'', ''a'')] (example_world\<lparr>stdout := stdout example_world @ out1\<rparr>) = (Inr (), wk1)"
    and fail1: "cache_asset ''/cache'' (cache_mesh example_env) ''/assets/b.obj'' ''b''
             (wk1\<lparr>stdout := stdout wk1 @ [''Caching '' @ str_of_nat (length [(''/assets/a.obj'', ''a'')] + 1)
                 @ ''/'' @ str_of_nat (length ?fwd) @ '' - '' @ ''b'']\<rparr>)
           = (Inl (ImportFailure ''/assets/b.obj''), w1)"
    by blast
  note r1 = first_failure_ends_run [OF example_set_iteration cf1 d1 split1 pre1 fail1]
  from cache_then_fail [OF cd2 imp_rc pos_c imp_rb cb] obtain wk2 w2 where
    pre2: "serial_cacher_from (length ?bwd) 0 (cache_asset ''/cache'' (cache_mesh example_env_reversed))
             [(''/assets/c.obj'', ''c'')] (example_world\<lparr>stdout := stdout example_world @ out2\<rparr>) = (Inr (), wk2)"
    and fail2: "cache_asset ''/cache'' (cache_mesh example_env_reversed) ''/assets/b.obj'' ''b''
             (wk2\<lparr>stdout := stdout wk2 @ [''Caching '' @ str_of_nat (length [(''/assets/c.obj'', ''c'')] + 1)
                 @ ''/'' @ str_of_nat (length ?bwd) @ '' - '' @ ''b'']\<rparr>)
           = (Inl (ImportFailure ''/assets/b.obj''), w2)"
    by blast
  note r2 = first_failure_ends_run [OF example_reversed_set_iteration cf2 d2 split2 pre2 fail2]
  from r1 have run1: "\<exists>w'. build_cache example_env serial_cacher (mesh_paths example_env) (cache_mesh example_env)
              ''/assets'' False None (Some ''/cache'') example_world
            = (Inl (ImportFailure ''/assets/b.obj''), w')
          \<and> isdir w' [''/cache'', ''a'']
          \<and> lookup w' [''/cache'', ''c''] = None"
    by (intro exI [of _ w1]) simp
  from r2 have run2: "\<exists>w'. build_cache example_env_reversed serial_cacher (mesh_paths example_env_reversed)
              (cache_mesh example_env_reversed) ''/assets'' False None (Some ''/cache'') example_world
            = (Inl (ImportFailure ''/assets/b.obj''), w')
          \<and> isdir w' [''/cache'', ''c'']
          \<and> lookup w' [''/cache'', ''a''] = None"
    by (intro exI [of _ w2]) simp
  have l1: "fst (uncached_assets example_env (mesh_paths example_env) ''/assets'' False None (Some ''/cache'')
            example_world) = Inr (''/cache'', {''a'', ''b'', ''c''}, ?fwd)"
    by (simp only: d1 fst_conv)
  have l2: "fst (uncached_assets example_env_reversed (mesh_paths example_env_reversed) ''/assets'' False None
            (Some ''/cache'') example_world) = Inr (''/cache'', {''a'', ''b'', ''c''}, ?bwd)"
    by (simp only: d2 fst_conv)
  from example_set_iteration example_reversed_set_iteration rev l1 l2 run1 run2
  show ?thesis
    by (intro conjI)
qed

end
